theory Spec2Isabelle
  imports Main "HOL-Library.Word"
begin

section \<open>JavaScript primitives used by the beacon and the gateway\<close>

text \<open>
  JavaScript strings are modelled as HOL strings (lists of 8-bit characters): every string the
  proof-of-work code builds is ASCII (decimal digits and colons).  JavaScript numbers are
  modelled as unbounded integers; all values that occur (epoch milliseconds, minute counts,
  loop counters) are integers far below \<open>2^53\<close>, where the two agree.
\<close>

definition digit_char :: "nat \<Rightarrow> char" where
  "digit_char d = ''0123456789'' ! d"

text \<open>\<open>String(n)\<close> / template interpolation of a non-negative integer: its decimal digits.\<close>

fun string_of_nat :: "nat \<Rightarrow> string" where
  "string_of_nat n =
     (if n < 10 then [digit_char n] else string_of_nat (n div 10) @ [digit_char (n mod 10)])"

declare string_of_nat.simps [simp del]

definition string_of_int :: "int \<Rightarrow> string" where
  "string_of_int i = (if i < 0 then CHR ''-'' # string_of_nat (nat (- i)) else string_of_nat (nat i))"

definition is_digit :: "char \<Rightarrow> bool" where
  "is_digit c = ((48::nat) \<le> of_char c \<and> (of_char c :: nat) \<le> 57)"

definition digit_val :: "char \<Rightarrow> nat" where
  "digit_val c = (of_char c :: nat) - 48"

text \<open>White space skipped by \<open>parseInt\<close> (the code units below 256: TAB, LF, VT, FF, CR, SP, NBSP).\<close>

definition is_ws :: "char \<Rightarrow> bool" where
  "is_ws c = ((of_char c :: nat) \<in> {9, 10, 11, 12, 13, 32, 160})"

definition digits_value :: "string \<Rightarrow> nat" where
  "digits_value ds = foldl (\<lambda>acc c. 10 * acc + digit_val c) 0 ds"

text \<open>
  \<open>parseInt(s, 10)\<close>: skip leading white space, read an optional sign, then the longest prefix
  of decimal digits; \<open>NaN\<close> (here \<open>None\<close>) when there is no digit.
\<close>

definition parseInt :: "string \<Rightarrow> int option" where
  "parseInt s =
     (let t = dropWhile is_ws s;
          neg = (t \<noteq> [] \<and> hd t = CHR ''-'');
          u = (if t \<noteq> [] \<and> (hd t = CHR ''-'' \<or> hd t = CHR ''+'') then tl t else t);
          ds = takeWhile is_digit u
      in if ds = [] then None
         else Some (if neg then - int (digits_value ds) else int (digits_value ds)))"

text \<open>\<open>s.split(c)\<close> for a one-character separator: always at least one segment.\<close>

fun split :: "char \<Rightarrow> string \<Rightarrow> string list" where
  "split c [] = [[]]"
| "split c (x # xs) =
     (if x = c then [] # split c xs
      else (case split c xs of [] \<Rightarrow> [[x]] | s # ss \<Rightarrow> (x # s) # ss))"

text \<open>\<open>Math.clz32\<close>: the number of leading zero bits of a 32-bit unsigned value.\<close>

fun bit_length :: "nat \<Rightarrow> nat" where
  "bit_length n = (if n = 0 then 0 else Suc (bit_length (n div 2)))"

declare bit_length.simps [simp del]

definition clz32 :: "32 word \<Rightarrow> int" where
  "clz32 x = 32 - int (bit_length (unat x))"

definition ascii :: "string \<Rightarrow> bool" where
  "ascii s = list_all (\<lambda>c. (of_char c :: nat) < 128) s"

section \<open>Proof of work\<close>

subsection \<open>Client: \<open>makePow\<close> (extensions/yahoo-ad-cv-web-pixel/src/index.ts)\<close>

definition DIFFICULTY :: int where
  "DIFFICULTY = 10"

text \<open>
  The inner \<open>for (const byte of hash)\<close> loop of \<open>makePow\<close>, started with the running
  value of \<open>zeros\<close>: add \<open>Math.clz32(byte) - 24\<close> and stop at the first byte that is not
  entirely zero.
\<close>

fun makePow_zeros :: "int \<Rightarrow> 8 word list \<Rightarrow> int" where
  "makePow_zeros zeros [] = zeros"
| "makePow_zeros zeros (byte # hash) =
     (let z = clz32 (ucast byte) - 24;
          zeros' = zeros + z
      in if z \<noteq> 8 then zeros' else makePow_zeros zeros' hash)"

text \<open>
  The \<open>while (true)\<close> search of \<open>makePow\<close>.  The loop has no bound in the source, so the model
  carries fuel: \<open>None\<close> means that no counter was found within the fuel.  \<open>sha256\<close> is the
  platform's SHA-256 of the UTF-8 encoding of the string (\<open>crypto.subtle.digest\<close> after
  \<open>TextEncoder.encode\<close>), \<open>btoa\<close> the platform's base64 encoder.
\<close>

fun makePow_loop ::
  "(string \<Rightarrow> string) \<Rightarrow> (string \<Rightarrow> 8 word list) \<Rightarrow> nat \<Rightarrow> string \<Rightarrow> nat \<Rightarrow> string option" where
  "makePow_loop btoa sha256 0 seedStr counter = None"
| "makePow_loop btoa sha256 (Suc fuel) seedStr counter =
     (let hash = sha256 (seedStr @ string_of_nat counter);
          zeros = makePow_zeros 0 hash
      in if zeros \<ge> DIFFICULTY then Some (btoa (seedStr @ string_of_nat counter))
         else makePow_loop btoa sha256 fuel seedStr (counter + 1))"

text \<open>
  \<open>makePow\<close>: \<open>now\<close> is \<open>Date.now()\<close>, \<open>rand\<close> the eight random 16-bit values whose decimal
  renderings are joined without separator.
\<close>

definition makePow_seed :: "int \<Rightarrow> 16 word list \<Rightarrow> string" where
  "makePow_seed now rand =
     (let unixMin = now div 60000;
          rand16 = concat (map (\<lambda>r. string_of_nat (unat r)) rand)
      in string_of_int unixMin @ '':'' @ rand16 @ '':'')"

definition makePow ::
  "(string \<Rightarrow> string) \<Rightarrow> (string \<Rightarrow> 8 word list) \<Rightarrow> nat \<Rightarrow> int \<Rightarrow> 16 word list \<Rightarrow> string option" where
  "makePow btoa sha256 fuel now rand = makePow_loop btoa sha256 fuel (makePow_seed now rand) 0"

subsection \<open>Server: \<open>checkPow\<close> (app/routes/api.setConversion/route.ts)\<close>

definition POW_BITS :: int where
  "POW_BITS = 10"

definition POW_VALID_MS :: int where
  "POW_VALID_MS = 2 * 60000"

fun checkPow_zeros :: "int \<Rightarrow> 8 word list \<Rightarrow> int" where
  "checkPow_zeros zeros [] = zeros"
| "checkPow_zeros zeros (byte # hash) =
     (let z = clz32 (ucast byte) - 24;
          zeros' = zeros + z
      in if z \<noteq> 8 then zeros' else checkPow_zeros zeros' hash)"

text \<open>
  \<open>checkPow\<close>: \<open>b64\<close> is the \<open>x-pow\<close> header (\<open>None\<close> when absent), \<open>now\<close> is \<open>Date.now()\<close>,
  \<open>b64decode\<close> is \<open>Buffer.from(_, "base64").toString("utf8")\<close> and \<open>sha256\<close> the digest of the
  UTF-8 encoding of the string (\<open>createHash("sha256").update(data).digest()\<close>).
\<close>

definition checkPow ::
  "(string \<Rightarrow> string) \<Rightarrow> (string \<Rightarrow> 8 word list) \<Rightarrow> int \<Rightarrow> string option \<Rightarrow> bool" where
  "checkPow b64decode sha256 now b64 =
     (case b64 of
        None \<Rightarrow> False
      | Some t \<Rightarrow>
          if t = [] then False
          else
            let data = b64decode t;
                unixMinStr = hd (split CHR '':'' data)
            in (case parseInt unixMinStr of
                  None \<Rightarrow> False
                | Some unixMin \<Rightarrow>
                    let minTime = unixMin * 60000
                    in if \<bar>now - minTime\<bar> > POW_VALID_MS then False
                       else checkPow_zeros 0 (sha256 data) \<ge> POW_BITS))"


subsection \<open>A stand-in digest for concrete runs\<close>

text \<open>
  The theorems about the proof of work hold for every digest function.  Concrete runs use
  this stand-in: its digest has ten leading zero bits exactly when the string ends in \<open>3\<close>.
\<close>

definition toy_digest :: "string \<Rightarrow> 8 word list" where
  "toy_digest s = (if s \<noteq> [] \<and> last s = CHR ''3'' then [0, 32, 255] else [0, 64, 0])"

subsection \<open>A reference base64 codec\<close>

text \<open>
  \<open>btoa\<close> and \<open>Buffer.from(_, "base64")\<close> belong to the platform, and the proof-of-work
  functions above take them as parameters.  The concrete runs below use this reference codec
  (RFC 4648, standard alphabet, \<open>=\<close> padding); the decoder skips characters outside the
  alphabet and stops at the padding.  It returns the decoded bytes as characters, which is the
  UTF-8 reading of the bytes when they are ASCII.
\<close>

text \<open>The alphabet: \<open>A\<close> to \<open>Z\<close>, \<open>a\<close> to \<open>z\<close>, \<open>0\<close> to \<open>9\<close>, \<open>+\<close> and \<open>/\<close>.\<close>

definition b64_char :: "nat \<Rightarrow> char" where
  "b64_char n =
     (if n < 26 then char_of (n + 65)
      else if n < 52 then char_of (n + 71)
      else if n < 62 then char_of (n - 4)
      else if n = 62 then CHR ''+''
      else CHR ''/'')"

fun b64_encode_bytes :: "nat list \<Rightarrow> string" where
  "b64_encode_bytes [] = []"
| "b64_encode_bytes [a] =
     [b64_char (a div 4), b64_char ((a mod 4) * 16), CHR ''='', CHR ''='']"
| "b64_encode_bytes [a, b] =
     [b64_char (a div 4), b64_char ((a mod 4) * 16 + b div 16), b64_char ((b mod 16) * 4),
      CHR ''='']"
| "b64_encode_bytes (a # b # c # rest) =
     [b64_char (a div 4), b64_char ((a mod 4) * 16 + b div 16),
      b64_char ((b mod 16) * 4 + c div 64), b64_char (c mod 64)] @ b64_encode_bytes rest"

definition base64_encode :: "string \<Rightarrow> string" where
  "base64_encode s = b64_encode_bytes (map of_char s)"

definition b64_value :: "char \<Rightarrow> nat option" where
  "b64_value c =
     (let n = (of_char c :: nat)
      in if 65 \<le> n \<and> n \<le> 90 then Some (n - 65)
         else if 97 \<le> n \<and> n \<le> 122 then Some (n - 71)
         else if 48 \<le> n \<and> n \<le> 57 then Some (n + 4)
         else if n = 43 then Some 62
         else if n = 47 then Some 63
         else None)"

fun b64_decode_values :: "nat list \<Rightarrow> nat list" where
  "b64_decode_values (a # b # c # d # rest) =
     [a * 4 + b div 16, (b mod 16) * 16 + c div 4, (c mod 4) * 64 + d] @ b64_decode_values rest"
| "b64_decode_values [a, b, c] = [a * 4 + b div 16, (b mod 16) * 16 + c div 4]"
| "b64_decode_values [a, b] = [a * 4 + b div 16]"
| "b64_decode_values _ = []"

definition b64_values :: "string \<Rightarrow> nat list" where
  "b64_values t = List.map_filter b64_value (takeWhile (\<lambda>c. c \<noteq> CHR ''='') t)"

definition base64_decode :: "string \<Rightarrow> string" where
  "base64_decode t = map char_of (b64_decode_values (b64_values t))"

section \<open>The ingestion gateway (app/routes/api.setConversion/route.ts)\<close>

subsection \<open>Stored tables (the migration's \<open>CREATE TABLE\<close> statements)\<close>

text \<open>
  Only the tables and columns that the modelled code reads or writes are kept.  Timestamps are
  epoch milliseconds.  The account's \<open>type\<close> column holds an \<open>EndpointKey\<close>, \<open>search\<close> or
  \<open>display\<close>.  \<open>PixelNonce.receivedAt\<close> (a database default) is left out: the gateway
  never reads it.  The primary keys are \<open>PixelNonce.nonce\<close>, \<open>YahooConversion.yclid\<close> and
  \<open>ApiKeyPair.kid\<close>; \<open>YahooConversion.orderId\<close> carries no uniqueness constraint.
\<close>

record YahooConversion =
  yclid :: string
  amount :: int
  visitedAt :: int
  conversionedAt :: int
  isProcessed :: bool
  orderId :: string

record ApiKeyPair =
  kid :: string
  publicKey :: string
  privateKey :: string
  createdAt :: int

record Session =
  shop :: string
  accessToken :: string
  primaryDomain :: "string option"

text \<open>The ad-network application (OAuth credentials) and the configured ad accounts.\<close>

record YahooAdApplication =
  clientId :: string
  clientSecret :: string
  redirectUri :: string
  app_code :: "string option"
  app_accessToken :: "string option"
  app_refreshToken :: "string option"
  tokenCreatedAt :: "int option"

datatype EndpointKey = Search | Display

record YahooAdAccount =
  account_type :: EndpointKey
  accountId :: string
  childAccountId :: string
  duration :: int
  conversionTitle :: string

record database =
  pixelNonce :: "string list"
  yahooConversion :: "YahooConversion list"
  apiKeyPair :: "ApiKeyPair list"
  session :: "Session list"
  yahooAdApplication :: "YahooAdApplication list"
  yahooAdAccount :: "YahooAdAccount list"

text \<open>
  The module-level variables of the route: the session cache with its expiry and the
  private-key cache (a \<open>Record<string, CryptoKey>\<close>).  A \<open>CryptoKey\<close> is the key imported
  by \<open>importPKCS8\<close> from the stored PKCS8 text.
\<close>

datatype CryptoKey = CryptoKey string

definition importPKCS8 :: "string \<Rightarrow> CryptoKey" where
  "importPKCS8 pem = CryptoKey pem"

record memory =
  sessionCache :: "(Session \<times> int) option"
  privateKeyCache :: "string \<Rightarrow> CryptoKey option"

subsection \<open>Requests, responses and the platform\<close>

datatype http_method = GET | HEAD | OPTIONS | POST | PUT | PATCH | DELETE

record request =
  req_method :: http_method
  x_pow :: "string option"
  body_text :: string

text \<open>
  Response bodies: \<open>ErrorBody c\<close> is \<open>{error: <fixed message>, error_code: c}\<close>, \<open>SuccessBody\<close>
  is \<open>{result: "success"}\<close>, \<open>InternalErrorBody\<close> is \<open>{error: "Internal Server Error"}\<close>.
  The CORS headers built by \<open>buildCorsHeaders\<close> are the same on every response and are not
  modelled.
\<close>

datatype response_body = NoBody | ErrorBody nat | SuccessBody | InternalErrorBody

record response =
  status :: nat
  body :: response_body

text \<open>
  A JavaScript number: one whose value is an integer, or any other (a fraction, an infinity).
  A JSON value as far as \<open>typeof\<close> tells them apart.
\<close>

datatype js_number = Integral int | NonIntegral

datatype json = JString string | JNumber js_number | JOther

record payload =
  p_yclid :: json
  p_visitedAt :: json
  p_conversionedAt :: json
  p_amount :: json
  p_orderId :: json
  p_nonce :: json

text \<open>The payload after the \<open>typeof\<close> checks.\<close>

record conversion_data =
  c_yclid :: string
  c_visitedAt :: string
  c_conversionedAt :: string
  c_amount :: js_number
  c_orderId :: string
  c_nonce :: string

text \<open>
  The answer of one \<open>admin.request(query)\<close> for the order: the call throws, the response has
  no order (\<open>data\<close> missing or \<open>order: null\<close>), or it has the order with its \<open>createdAt\<close>.
\<close>

datatype order_response = RequestThrows | OrderAbsent | OrderFound int

text \<open>
  What one run of the handler observes of its surroundings: the clock at the three places it
  is read, the library functions (\<open>None\<close> where the library throws), the order system
  (the answer to the \<open>k\<close>-th lookup of an order id, \<open>k = 0\<close> first), the integer that the
  client library stores for a number in an \<open>INTEGER\<close> column (\<open>None\<close> where it refuses the
  number), and whether the insertion fails in the database for a reason of its own.
\<close>

record env =
  now_pow :: int
  now_session :: int
  now_order :: int
  b64decode :: "string \<Rightarrow> string"
  sha256 :: "string \<Rightarrow> 8 word list"
  decodeProtectedHeader :: "string \<Rightarrow> (string \<times> string) option"
  compactDecrypt :: "string \<Rightarrow> CryptoKey \<Rightarrow> string option"
  JSON_parse :: "string \<Rightarrow> payload option"
  Date_parse :: "string \<Rightarrow> int option"
  prisma_Int :: "js_number \<Rightarrow> int option"
  create_fails :: bool
  order_lookup :: "string \<Rightarrow> nat \<Rightarrow> order_response"

subsection \<open>Helpers of the route\<close>

definition ALLOW_SESSION_TTL_MS :: int where
  "ALLOW_SESSION_TTL_MS = 5 * 60000"

text \<open>\<open>db.session.findFirst()\<close>.\<close>

definition session_findFirst :: "database \<Rightarrow> Session option" where
  "session_findFirst db = (case session db of [] \<Rightarrow> None | s # _ \<Rightarrow> Some s)"

definition getSession :: "int \<Rightarrow> memory \<Rightarrow> database \<Rightarrow> memory \<times> Session option" where
  "getSession now mem db =
     (case sessionCache mem of
        Some (s, expires) \<Rightarrow>
          if expires > now then (mem, Some s)
          else (case session_findFirst db of
                  None \<Rightarrow> (mem, None)
                | Some record \<Rightarrow>
                    (mem\<lparr>sessionCache := Some (record, now + ALLOW_SESSION_TTL_MS)\<rparr>, Some record))
      | None \<Rightarrow>
          (case session_findFirst db of
             None \<Rightarrow> (mem, None)
           | Some record \<Rightarrow>
               (mem\<lparr>sessionCache := Some (record, now + ALLOW_SESSION_TTL_MS)\<rparr>, Some record)))"

text \<open>\<open>db.apiKeyPair.findUnique({where: {kid}})\<close>.\<close>

definition apiKeyPair_findUnique :: "database \<Rightarrow> string \<Rightarrow> ApiKeyPair option" where
  "apiKeyPair_findUnique db k = find (\<lambda>r. kid r = k) (apiKeyPair db)"

text \<open>
  \<open>getPrivateKey\<close>: a cache hit is returned as it is; on a miss the key is loaded from the
  table, the cache is emptied and the loaded key becomes its only entry.
\<close>

definition getPrivateKey :: "memory \<Rightarrow> database \<Rightarrow> string \<Rightarrow> memory \<times> CryptoKey option" where
  "getPrivateKey mem db k =
     (case privateKeyCache mem k of
        Some hit \<Rightarrow> (mem, Some hit)
      | None \<Rightarrow>
          (case apiKeyPair_findUnique db k of
             None \<Rightarrow> (mem, None)
           | Some record \<Rightarrow>
               let key = importPKCS8 (privateKey record)
               in (mem\<lparr>privateKeyCache := (\<lambda>_. None)(k \<mapsto> key)\<rparr>, Some key)))"

definition errorResponse :: "nat \<Rightarrow> response" where
  "errorResponse code = \<lparr>status = 405, body = ErrorBody code\<rparr>"

definition successResponse :: response where
  "successResponse = \<lparr>status = 200, body = SuccessBody\<rparr>"

definition internalErrorResponse :: response where
  "internalErrorResponse = \<lparr>status = 500, body = InternalErrorBody\<rparr>"

text \<open>\<open>loader\<close>: the handler of the requests that are not mutations.\<close>

definition loader :: "request \<Rightarrow> response" where
  "loader req =
     (if req_method req = OPTIONS then \<lparr>status = 204, body = NoBody\<rparr> else errorResponse 0)"

text \<open>The six \<open>typeof\<close> tests of \<open>action\<close>; \<open>None\<close> when one of them fails.\<close>

definition check_payload :: "payload \<Rightarrow> conversion_data option" where
  "check_payload p =
     (case (p_yclid p, p_visitedAt p, p_conversionedAt p, p_amount p, p_orderId p, p_nonce p) of
        (JString y, JString v, JString c, JNumber a, JString oid, JString n) \<Rightarrow>
          Some \<lparr>c_yclid = y, c_visitedAt = v, c_conversionedAt = c, c_amount = a,
                c_orderId = oid, c_nonce = n\<rparr>
      | _ \<Rightarrow> None)"

text \<open>
  The transaction \<open>[pixelNonce.create, yahooConversion.findFirst]\<close> with its \<open>catch\<close>: a
  nonce that is already stored violates the primary key (P2002), the transaction is rolled
  back and \<open>existing\<close> is \<open>true\<close>; otherwise the nonce is stored and \<open>existing\<close> tells
  whether a conversion with the order id was found.
\<close>

definition dedup_transaction :: "database \<Rightarrow> string \<Rightarrow> string \<Rightarrow> database \<times> bool" where
  "dedup_transaction db nonce oid =
     (if nonce \<in> set (pixelNonce db) then (db, True)
      else (db\<lparr>pixelNonce := pixelNonce db @ [nonce]\<rparr>,
            find (\<lambda>r. orderId r = oid) (yahooConversion db) \<noteq> None))"

subsection \<open>\<open>action\<close>, cut at its suspension points\<close>

text \<open>
  \<open>action\<close> awaits the order system between the duplicate check and the insertion.  The
  model has one function for each stretch: \<open>action_receive\<close> (method check to the duplicate
  transaction), \<open>action_verify_order\<close> (the order lookups) and \<open>action_persist\<close> (the
  insertion); \<open>action\<close> runs the three in a row, as a request that is alone does.
  An exception that reaches the outer \<open>catch\<close> gives the 500 response.
\<close>

definition action_receive ::
  "env \<Rightarrow> memory \<Rightarrow> database \<Rightarrow> request \<Rightarrow> memory \<times> database \<times> (response + conversion_data)" where
  "action_receive e mem db req =
     (if req_method req \<noteq> POST then (mem, db, Inl (errorResponse 1))
      else if \<not> checkPow (b64decode e) (sha256 e) (now_pow e) (x_pow req)
        then (mem, db, Inl (errorResponse 2))
      else if body_text req = [] then (mem, db, Inl (errorResponse 3))
      else
        (case decodeProtectedHeader e (body_text req) of
           None \<Rightarrow> (mem, db, Inl internalErrorResponse)
         | Some (k, alg) \<Rightarrow>
             if alg \<noteq> ''RSA-OAEP-256'' then (mem, db, Inl (errorResponse 4))
             else
               let (mem1, sess) = getSession (now_session e) mem db;
                   (mem2, key) = getPrivateKey mem1 db k
               in (case sess of
                     None \<Rightarrow> (mem2, db, Inl (errorResponse 5))
                   | Some _ \<Rightarrow>
                       (case key of
                          None \<Rightarrow> (mem2, db, Inl (errorResponse 6))
                        | Some ck \<Rightarrow>
                            (case compactDecrypt e (body_text req) ck of
                               None \<Rightarrow> (mem2, db, Inl internalErrorResponse)
                             | Some plaintext \<Rightarrow>
                                 (case JSON_parse e plaintext of
                                    None \<Rightarrow> (mem2, db, Inl internalErrorResponse)
                                  | Some p \<Rightarrow>
                                      (case check_payload p of
                                         None \<Rightarrow> (mem2, db, Inl (errorResponse 7))
                                       | Some c \<Rightarrow>
                                           let (db', existing) =
                                                 dedup_transaction db (c_nonce c) (c_orderId c)
                                           in if existing then (mem2, db', Inl (errorResponse 8))
                                              else (mem2, db', Inr c))))))))"

text \<open>
  The order lookups (lines 224 to 238).  \<open>None\<close>: the check passed.  When the first answer has
  no order, the second answer is bound to an inner \<open>const gqlRes\<close>; the freshness test after
  the block reads the outer \<open>gqlRes\<close>, which still has no order, so that reading
  \<open>createdAt\<close> throws and the inner \<open>catch\<close> answers with code 11.
\<close>

definition action_verify_order :: "env \<Rightarrow> string \<Rightarrow> response option" where
  "action_verify_order e oid =
     (case order_lookup e oid 0 of
        RequestThrows \<Rightarrow> Some (errorResponse 11)
      | OrderFound created \<Rightarrow>
          if now_order e - created > 2 * 60000 then Some (errorResponse 10) else None
      | OrderAbsent \<Rightarrow>
          (case order_lookup e oid 1 of
             RequestThrows \<Rightarrow> Some (errorResponse 11)
           | OrderAbsent \<Rightarrow> Some (errorResponse 9)
           | OrderFound _ \<Rightarrow> Some (errorResponse 11)))"

text \<open>
  \<open>db.yahooConversion.create\<close>, whose every failure is answered with code 12 by the \<open>catch\<close>.
  It throws when a date is invalid, when the client library does not accept the amount for
  the \<open>INTEGER\<close> column (\<open>prisma_Int\<close> is \<open>None\<close>: the number is not an integer, or too
  large), when the \<open>yclid\<close> is already stored (primary key), and when the database call fails
  for any other reason (\<open>create_fails\<close>).
\<close>

definition action_persist :: "env \<Rightarrow> database \<Rightarrow> conversion_data \<Rightarrow> database \<times> response" where
  "action_persist e db c =
     (case (Date_parse e (c_visitedAt c), Date_parse e (c_conversionedAt c),
            prisma_Int e (c_amount c)) of
        (Some v, Some cv, Some a) \<Rightarrow>
          if create_fails e \<or> c_yclid c \<in> set (map yclid (yahooConversion db))
          then (db, errorResponse 12)
          else
            (db\<lparr>yahooConversion := yahooConversion db @
                 [\<lparr>yclid = c_yclid c, amount = a, visitedAt = v, conversionedAt = cv,
                   isProcessed = False, orderId = c_orderId c\<rparr>]\<rparr>,
             successResponse)
      | _ \<Rightarrow> (db, errorResponse 12))"

definition action :: "env \<Rightarrow> memory \<Rightarrow> database \<Rightarrow> request \<Rightarrow> memory \<times> database \<times> response" where
  "action e mem db req =
     (case action_receive e mem db req of
        (mem', db', Inl resp) \<Rightarrow> (mem', db', resp)
      | (mem', db', Inr c) \<Rightarrow>
          (case action_verify_order e (c_orderId c) of
             Some resp \<Rightarrow> (mem', db', resp)
           | None \<Rightarrow>
               let (db'', resp) = action_persist e db' c in (mem', db'', resp)))"

subsection \<open>Requests in flight at the same time\<close>

text \<open>
  The server runs every handler on one thread and switches between handlers only where one
  awaits.  A task is a request together with how far its handler has come; \<open>step\<close> runs
  one task up to its next suspension point; a schedule names, step by step, the task that
  runs next.
\<close>

datatype task =
    Arrived env request
  | AwaitingOrder env conversion_data
  | AwaitingInsert env conversion_data
  | Finished response

record server =
  srv_mem :: memory
  srv_db :: database

definition step :: "server \<Rightarrow> task \<Rightarrow> server \<times> task" where
  "step s t =
     (case t of
        Arrived e req \<Rightarrow>
          (case action_receive e (srv_mem s) (srv_db s) req of
             (mem', db', Inl resp) \<Rightarrow> (\<lparr>srv_mem = mem', srv_db = db'\<rparr>, Finished resp)
           | (mem', db', Inr c) \<Rightarrow> (\<lparr>srv_mem = mem', srv_db = db'\<rparr>, AwaitingOrder e c))
      | AwaitingOrder e c \<Rightarrow>
          (case action_verify_order e (c_orderId c) of
             Some resp \<Rightarrow> (s, Finished resp)
           | None \<Rightarrow> (s, AwaitingInsert e c))
      | AwaitingInsert e c \<Rightarrow>
          (let (db', resp) = action_persist e (srv_db s) c in (s\<lparr>srv_db := db'\<rparr>, Finished resp))
      | Finished resp \<Rightarrow> (s, Finished resp))"

fun run :: "nat list \<Rightarrow> server \<times> task list \<Rightarrow> server \<times> task list" where
  "run [] st = st"
| "run (i # schedule) (s, ts) =
     (if i < length ts
      then (let (s', t') = step s (ts ! i) in run schedule (s', ts[i := t']))
      else run schedule (s, ts))"

text \<open>The response of \<open>action\<close>, without the state it leaves.\<close>

definition action_response :: "env \<Rightarrow> memory \<Rightarrow> database \<Rightarrow> request \<Rightarrow> response" where
  "action_response e mem db req = snd (snd (action e mem db req))"

subsection \<open>A concrete deployment for runs of the gateway\<close>

text \<open>
  One merchant session, one stored key pair, and a platform whose library calls succeed: the
  header names key \<open>k1\<close> with the supported algorithm, decryption under the matching key
  returns the body text, which stands for its own plaintext, and the plaintext \<open>A\<close>
  (\<open>B\<close>) parses to a purchase of order 123 with click id \<open>YSS.1.a\<close> (\<open>YSS.2.b\<close>) and
  nonce \<open>n1\<close> (\<open>n2\<close>); the plaintext \<open>C\<close> is \<open>A\<close> again with the nonce \<open>n3\<close>.  Times are
  around 1690000050000 ms.
\<close>

definition demo_session :: Session where
  "demo_session = \<lparr>shop = ''demo.myshopify.com'', accessToken = ''shpat'', primaryDomain = None\<rparr>"

definition demo_key :: ApiKeyPair where
  "demo_key = \<lparr>kid = ''k1'', publicKey = ''jwk1'', privateKey = ''pem1'',
                createdAt = 1690000000000\<rparr>"

definition demo_db :: database where
  "demo_db = \<lparr>pixelNonce = [], yahooConversion = [], apiKeyPair = [demo_key],
               session = [demo_session], yahooAdApplication = [], yahooAdAccount = []\<rparr>"

definition demo_mem :: memory where
  "demo_mem = \<lparr>sessionCache = None, privateKeyCache = (\<lambda>_. None)\<rparr>"

definition demo_payload :: "string \<Rightarrow> string \<Rightarrow> string \<Rightarrow> payload" where
  "demo_payload y oid n =
     \<lparr>p_yclid = JString y, p_visitedAt = JString ''visited'',
      p_conversionedAt = JString ''converted'', p_amount = JNumber (Integral 1000),
      p_orderId = JString oid, p_nonce = JString n\<rparr>"

definition demo_parse :: "string \<Rightarrow> payload option" where
  "demo_parse s =
     (if s = ''A'' then Some (demo_payload ''YSS.1.a'' ''123'' ''n1'')
      else if s = ''B'' then Some (demo_payload ''YSS.2.b'' ''123'' ''n2'')
      else if s = ''C'' then Some (demo_payload ''YSS.1.a'' ''123'' ''n3'')
      else None)"

text \<open>The client library of the concrete deployment stores the integers of 64 bits.\<close>

definition demo_prisma_Int :: "js_number \<Rightarrow> int option" where
  "demo_prisma_Int n =
     (case n of
        Integral i \<Rightarrow>
          if - 9223372036854775808 \<le> i \<and> i < 9223372036854775808 then Some i else None
      | NonIntegral \<Rightarrow> None)"

definition demo_env :: "(string \<Rightarrow> nat \<Rightarrow> order_response) \<Rightarrow> env" where
  "demo_env lookup =
     \<lparr>now_pow = 1690000050000, now_session = 1690000050001, now_order = 1690000051002,
      b64decode = base64_decode, sha256 = toy_digest,
      decodeProtectedHeader = (\<lambda>b. Some (''k1'', ''RSA-OAEP-256'')),
      compactDecrypt = (\<lambda>b k. if k = CryptoKey ''pem1'' then Some b else None),
      JSON_parse = demo_parse,
      Date_parse = (\<lambda>s. if s = ''visited'' then Some 1689999000000
                          else if s = ''converted'' then Some 1690000040000 else None),
      prisma_Int = demo_prisma_Int, create_fails = False,
      order_lookup = lookup\<rparr>"

text \<open>The order system knows order 123, created 5 seconds before the freshness test.\<close>

definition order_known :: "string \<Rightarrow> nat \<Rightarrow> order_response" where
  "order_known oid k = (if oid = ''123'' then OrderFound 1690000046002 else OrderAbsent)"

text \<open>The order system misses order 123 at the first lookup and has it at the second.\<close>

definition order_known_late :: "string \<Rightarrow> nat \<Rightarrow> order_response" where
  "order_known_late oid k =
     (if oid = ''123'' \<and> k \<ge> 1 then OrderFound 1690000046002 else OrderAbsent)"

definition demo_request :: "http_method \<Rightarrow> string \<Rightarrow> request" where
  "demo_request m b =
     \<lparr>req_method = m, x_pow = Some (base64_encode ''28166666:1655353:3''), body_text = b\<rparr>"

text \<open>A token stamped ten minutes earlier, whose digest still has ten leading zero bits.\<close>

definition stale_request :: "http_method \<Rightarrow> string \<Rightarrow> request" where
  "stale_request m b =
     \<lparr>req_method = m, x_pow = Some (base64_encode ''28166657:1655353:3''), body_text = b\<rparr>"

definition task_response :: "task \<Rightarrow> response option" where
  "task_response t = (case t of Finished r \<Rightarrow> Some r | _ \<Rightarrow> None)"

text \<open>Two requests for order 123 that have arrived and not yet been handled.\<close>

definition race_start :: "server \<times> task list" where
  "race_start =
     (\<lparr>srv_mem = demo_mem, srv_db = demo_db\<rparr>,
      [Arrived (demo_env order_known) (demo_request POST ''A''),
       Arrived (demo_env order_known) (demo_request POST ''B'')])"

text \<open>The same purchase sent twice, each time with its own nonce.\<close>

definition retry_start :: "server \<times> task list" where
  "retry_start =
     (\<lparr>srv_mem = demo_mem, srv_db = demo_db\<rparr>,
      [Arrived (demo_env order_known) (demo_request POST ''A''),
       Arrived (demo_env order_known) (demo_request POST ''C'')])"

text \<open>The validated payload of request \<open>A\<close>.\<close>

definition demo_conversion_A :: conversion_data where
  "demo_conversion_A =
     \<lparr>c_yclid = ''YSS.1.a'', c_visitedAt = ''visited'', c_conversionedAt = ''converted'',
      c_amount = Integral 1000, c_orderId = ''123'', c_nonce = ''n1''\<rparr>"

section \<open>Key rotation (app/batch/tasks/generatePublicKey.ts)\<close>

text \<open>
  The answers of the two Admin API calls.  The pixel query throws or yields
  \<open>pixelRes?.data?.webPixel?.id\<close> (\<open>None\<close> when a link of the chain is missing).  The
  update call throws or yields \<open>pixelUpdateRes?.data?.webPixelUpdate?.userErrors\<close> (\<open>None\<close>
  when a link of the chain is missing, as in a response that carries only top-level errors).
\<close>

datatype pixel_query_result = PixelQueryThrows | PixelQueryId "string option"

datatype pixel_update_result = PixelUpdateThrows | PixelUpdateUserErrors "string list option"

text \<open>
  What one run of \<open>generatePublicKey\<close> draws from its surroundings: the generated key pair
  in its two exported forms, the random key id, the clock, and the Admin API.
\<close>

record rotation_env =
  new_kid :: string
  new_publicKey :: string
  new_privateKey :: string
  rotation_now :: int
  pixel_query :: pixel_query_result
  pixel_update :: pixel_update_result

text \<open>
  \<open>findMany({orderBy: [{createdAt: 'desc'}], take: n})\<close>: the \<open>n\<close> newest rows.  Rows with
  equal \<open>createdAt\<close> keep their table order.
\<close>

definition apiKeyPair_newest :: "nat \<Rightarrow> ApiKeyPair list \<Rightarrow> ApiKeyPair list" where
  "apiKeyPair_newest n rows = take n (sort_key (\<lambda>r. - createdAt r) rows)"

text \<open>\<open>deleteMany({where: {kid: {notIn: kids}}})\<close>.\<close>

definition apiKeyPair_deleteMany_notIn :: "string list \<Rightarrow> ApiKeyPair list \<Rightarrow> ApiKeyPair list" where
  "apiKeyPair_deleteMany_notIn kids rows = filter (\<lambda>r. kid r \<in> set kids) rows"

text \<open>\<open>delete({where: {kid}})\<close>.\<close>

definition apiKeyPair_delete :: "string \<Rightarrow> ApiKeyPair list \<Rightarrow> ApiKeyPair list" where
  "apiKeyPair_delete k rows = filter (\<lambda>r. kid r \<noteq> k) rows"

text \<open>
  \<open>generatePublicKey\<close>: the new table contents and the returned flag.  Every \<open>throw\<close> inside
  the \<open>try\<close> block ends in the \<open>catch\<close>, which logs and returns \<open>false\<close>; the only deletion
  of the new key pair is the one in the \<open>userErrors\<close> branch.
\<close>

definition generatePublicKey :: "rotation_env \<Rightarrow> database \<Rightarrow> database \<times> bool" where
  "generatePublicKey e db =
     (let apiKeyPair_new = \<lparr>kid = new_kid e, publicKey = new_publicKey e,
                             privateKey = new_privateKey e, createdAt = rotation_now e\<rparr>
      in if new_kid e \<in> set (map kid (apiKeyPair db)) then (db, False)
         else
           let created = apiKeyPair db @ [apiKeyPair_new];
               apiKeyPairs = apiKeyPair_newest 3 created;
               purged = apiKeyPair_deleteMany_notIn (map kid apiKeyPairs) created;
               db1 = db\<lparr>apiKeyPair := purged\<rparr>
           in (case session_findFirst db1 of
                 None \<Rightarrow> (db1, False)
               | Some _ \<Rightarrow>
                   (case pixel_query e of
                      PixelQueryThrows \<Rightarrow> (db1, False)
                    | PixelQueryId None \<Rightarrow> (db1, False)
                    | PixelQueryId (Some pixelId) \<Rightarrow>
                        (case pixel_update e of
                           PixelUpdateThrows \<Rightarrow> (db1, False)
                         | PixelUpdateUserErrors None \<Rightarrow> (db1, True)
                         | PixelUpdateUserErrors (Some userErrors) \<Rightarrow>
                             if userErrors \<noteq> []
                             then (db1\<lparr>apiKeyPair := apiKeyPair_delete (new_kid e) purged\<rparr>, False)
                             else (db1, True)))))"

text \<open>
  The private-key cache agrees with the table: a cached entry for a stored key id is the
  import of that row's private key.
\<close>

definition cache_agrees :: "memory \<Rightarrow> database \<Rightarrow> bool" where
  "cache_agrees m d =
     list_all (\<lambda>r. privateKeyCache m (kid r) = None
                 \<or> privateKeyCache m (kid r) = Some (importPKCS8 (privateKey r)))
       (apiKeyPair d)"

subsection \<open>A concrete rotation\<close>

definition demo_rotation :: "pixel_query_result \<Rightarrow> pixel_update_result \<Rightarrow> rotation_env" where
  "demo_rotation q u =
     \<lparr>new_kid = ''k5'', new_publicKey = ''jwk5'', new_privateKey = ''pem5'',
      rotation_now = 1690002400000, pixel_query = q, pixel_update = u\<rparr>"

definition demo_keys :: "ApiKeyPair list" where
  "demo_keys =
     [\<lparr>kid = ''k2'', publicKey = ''jwk2'', privateKey = ''pem2'', createdAt = 1690000600000\<rparr>,
      \<lparr>kid = ''k3'', publicKey = ''jwk3'', privateKey = ''pem3'', createdAt = 1690001200000\<rparr>,
      \<lparr>kid = ''k4'', publicKey = ''jwk4'', privateKey = ''pem4'', createdAt = 1690001800000\<rparr>]"

definition demo_key_db :: database where
  "demo_key_db = demo_db\<lparr>apiKeyPair := demo_keys\<rparr>"

text \<open>The same rotation on a clock that was set back: the new key pair is stamped earlier than
  the three stored ones.\<close>

definition demo_rotation_clock_back :: rotation_env where
  "demo_rotation_clock_back =
     \<lparr>new_kid = ''k5'', new_publicKey = ''jwk5'', new_privateKey = ''pem5'',
      rotation_now = 1690000000000, pixel_query = PixelQueryId (Some ''px''),
      pixel_update = PixelUpdateUserErrors (Some [])\<rparr>"

section \<open>The exporter (createCsvAndImportToYahoo and getYahooAdToken)\<close>

definition YCLID_PREFIX :: "EndpointKey \<Rightarrow> string" where
  "YCLID_PREFIX t = (case t of Search \<Rightarrow> ''YSS'' | Display \<Rightarrow> ''YJAD'')"

text \<open>
  The \<open>startsWith\<close> filter of the query.  The database is SQLite, which evaluates the filter
  as a \<open>LIKE\<close> pattern: the letters \<open>A\<close> to \<open>Z\<close> match their lower-case forms too.  The two
  prefixes have no character that is special in a pattern.
\<close>

definition fold_case :: "char \<Rightarrow> nat" where
  "fold_case c =
     (let n = (of_char c :: nat) in if 65 \<le> n \<and> n \<le> 90 then n + 32 else n)"

definition startsWith :: "string \<Rightarrow> string \<Rightarrow> bool" where
  "startsWith s p = (map fold_case (take (length p) s) = map fold_case p)"

text \<open>The answer of the token endpoint: the call throws, the status is not OK, or it carries
  \<open>access_token\<close> and \<open>refresh_token\<close>.\<close>

datatype token_response = TokenFetchThrows | TokenNotOk | TokenOk string string

text \<open>
  The upload request as far as the properties below read it: the endpoint's network type, the
  \<open>accountId\<close> query parameter, the two headers, and the records rendered into the CSV body.
  The rendering of the rows and their transcoding are not modelled.
\<close>

record upload_request =
  up_endpoint :: EndpointKey
  up_accountId :: string
  up_base_account_id :: string
  up_authorization :: string
  up_records :: "YahooConversion list"

text \<open>
  The answer to an upload: \<open>fetch\<close> throws, or there is a response with its \<open>ok\<close> flag and
  its content.  A JSON content type gives \<open>JsonBody errors\<close>, with \<open>body?.errors\<close> (\<open>None\<close>
  when absent), or \<open>JsonInvalid\<close> when \<open>res.json()\<close> throws; any other content type gives
  \<open>TextBody\<close>.
\<close>

datatype upload_content = JsonBody "string list option" | JsonInvalid | TextBody

datatype upload_response = FetchThrows | FetchResponse bool upload_content

text \<open>
  What one run of the exporter draws from its surroundings: the row that
  \<open>getYahooAdApplication()\<close> returned (that function's source is not among the files, so its
  result is taken as given), the token endpoint's answer, the clock at the \<open>i\<close>-th account, and
  the upload endpoint.
\<close>

record export_env =
  loaded_application :: "YahooAdApplication option"
  token_answer :: token_response
  token_now :: int
  export_now :: "nat \<Rightarrow> int"
  upload_answer :: "upload_request \<Rightarrow> upload_response"

text \<open>\<open>getYahooAdAccounts\<close>: \<open>null\<close> when there is no account.\<close>

definition getYahooAdAccounts :: "database \<Rightarrow> YahooAdAccount list option" where
  "getYahooAdAccounts d = (if yahooAdAccount d = [] then None else Some (yahooAdAccount d))"

text \<open>\<open>db.yahooAdApplication.update({where: {clientId}, data})\<close>.\<close>

definition application_update_where ::
  "string \<Rightarrow> (YahooAdApplication \<Rightarrow> YahooAdApplication) \<Rightarrow> database \<Rightarrow> database" where
  "application_update_where cid f d =
     d\<lparr>yahooAdApplication := map (\<lambda>a. if clientId a = cid then f a else a) (yahooAdApplication d)\<rparr>"

text \<open>\<open>getYahooAdToken\<close>: the returned token (empty on every failure) and the table after the
  call.\<close>

definition getYahooAdToken ::
  "export_env \<Rightarrow> database \<Rightarrow> YahooAdApplication \<Rightarrow> bool \<Rightarrow> database \<times> string" where
  "getYahooAdToken e d app isRefresh =
     (if isRefresh \<and> (app_refreshToken app = None \<or> app_refreshToken app = Some [])
      then (d, [])
      else
        (case token_answer e of
           TokenFetchThrows \<Rightarrow> (d, [])
         | TokenNotOk \<Rightarrow> (d, [])
         | TokenOk access refresh \<Rightarrow>
             (application_update_where (clientId app)
                (\<lambda>a. a\<lparr>app_accessToken := Some access, app_refreshToken := Some refresh,
                        tokenCreatedAt := Some (token_now e)\<rparr>) d,
              access)))"

text \<open>String concatenation with a nullable string: \<open>null\<close> is rendered as \<open>null\<close>.\<close>

definition js_string :: "string option \<Rightarrow> string" where
  "js_string s = (case s of None \<Rightarrow> ''null'' | Some t \<Rightarrow> t)"

text \<open>The \<open>findMany\<close> filter of the exporter.\<close>

definition eligible :: "EndpointKey \<Rightarrow> int \<Rightarrow> int \<Rightarrow> YahooConversion \<Rightarrow> bool" where
  "eligible t now dur r =
     (let expiredAt = now - dur * 24 * 60 * 60 * 1000;
          oneHourAgo = now - 1 * 60 * 60 * 1000
      in startsWith (yclid r) (YCLID_PREFIX t)
         \<and> visitedAt r \<ge> expiredAt \<and> visitedAt r < now
         \<and> isProcessed r = False
         \<and> conversionedAt r \<ge> oneHourAgo \<and> conversionedAt r < now)"

text \<open>\<open>updateMany({where: {yclid: {in: ...}}, data: {isProcessed: true}})\<close>.\<close>

definition mark_processed :: "string list \<Rightarrow> database \<Rightarrow> database" where
  "mark_processed ys d =
     d\<lparr>yahooConversion :=
         map (\<lambda>r. if yclid r \<in> set ys then r\<lparr>isProcessed := True\<rparr> else r) (yahooConversion d)\<rparr>"

text \<open>
  The \<open>for\<close> loop over the accounts, with the index of the account, the database and the
  requests sent so far.  \<open>app\<close> is the application row loaded before the token was refreshed.
\<close>

fun export_accounts ::
  "export_env \<Rightarrow> YahooAdApplication \<Rightarrow> nat \<Rightarrow> YahooAdAccount list \<Rightarrow> database \<Rightarrow>
     upload_request list \<Rightarrow> database \<times> upload_request list" where
  "export_accounts e app i [] d sent = (d, sent)"
| "export_accounts e app i (acct # rest) d sent =
     (if accountId acct = [] \<or> childAccountId acct = [] \<or> conversionTitle acct = []
      then export_accounts e app (Suc i) rest d sent
      else
        let t = account_type acct;
            now = export_now e i;
            records = filter (eligible t now (duration acct)) (yahooConversion d)
        in if records = [] then export_accounts e app (Suc i) rest d sent
           else
             let req = \<lparr>up_endpoint = t, up_accountId = childAccountId acct,
                        up_base_account_id = accountId acct,
                        up_authorization = ''Bearer '' @ js_string (app_accessToken app),
                        up_records = records\<rparr>
             in (case upload_answer e req of
                   FetchThrows \<Rightarrow> export_accounts e app (Suc i) rest d (sent @ [req])
                 | FetchResponse ok content \<Rightarrow>
                     if content = JsonInvalid
                     then export_accounts e app (Suc i) rest d (sent @ [req])
                     else if \<not> ok then export_accounts e app (Suc i) rest d (sent @ [req])
                     else export_accounts e app (Suc i) rest
                            (mark_processed (map yclid records) d) (sent @ [req])))"

definition createCsvAndImportToYahoo :: "export_env \<Rightarrow> database \<Rightarrow> database \<times> upload_request list" where
  "createCsvAndImportToYahoo e d =
     (case loaded_application e of
        None \<Rightarrow> (d, [])
      | Some app \<Rightarrow>
          (case getYahooAdAccounts d of
             None \<Rightarrow> (d, [])
           | Some yahooAdAccounts \<Rightarrow>
               let (d1, accessToken) = getYahooAdToken e d app True
               in if accessToken = [] then (d1, [])
                  else
                    let d2 = application_update_where (clientId app)
                               (\<lambda>a. a\<lparr>app_accessToken := Some accessToken\<rparr>) d1
                    in export_accounts e app 0 yahooAdAccounts d2 []))"

subsection \<open>A concrete export run\<close>

text \<open>
  One application whose stored access token is \<open>old-token\<close>, one search account with a
  30-day window, and two unprocessed search conversions visited the day before and converted
  within the last hour.  The token endpoint answers the refresh with \<open>new-token\<close>.
\<close>

definition demo_application :: YahooAdApplication where
  "demo_application =
     \<lparr>clientId = ''client'', clientSecret = ''secret'', redirectUri = ''/receive/code'',
      app_code = Some ''code'', app_accessToken = Some ''old-token'',
      app_refreshToken = Some ''refresh-1'', tokenCreatedAt = Some 1689998800000\<rparr>"

definition demo_account :: YahooAdAccount where
  "demo_account = \<lparr>account_type = Search, accountId = ''100'', childAccountId = ''200'',
                   duration = 30, conversionTitle = ''purchase''\<rparr>"

definition demo_conversions :: "YahooConversion list" where
  "demo_conversions =
     [\<lparr>yclid = ''YSS.1.a'', amount = 1000, visitedAt = 1689913600000,
       conversionedAt = 1689999000000, isProcessed = False, orderId = ''123''\<rparr>,
      \<lparr>yclid = ''YSS.2.b'', amount = 2500, visitedAt = 1689913700000,
       conversionedAt = 1689999100000, isProcessed = False, orderId = ''124''\<rparr>]"

definition demo_export_db :: database where
  "demo_export_db =
     demo_db\<lparr>yahooConversion := demo_conversions, yahooAdApplication := [demo_application],
             yahooAdAccount := [demo_account]\<rparr>"

definition demo_export_env :: "upload_response \<Rightarrow> export_env" where
  "demo_export_env answer =
     \<lparr>loaded_application = Some demo_application,
      token_answer = TokenOk ''new-token'' ''refresh-2'',
      token_now = 1690000000000,
      export_now = (\<lambda>i. 1690000001000),
      upload_answer = (\<lambda>req. answer)\<rparr>"

section \<open>The client beacon: \<open>sendConversionData\<close> (extensions/yahoo-ad-cv-web-pixel/src/index.ts)\<close>

text \<open>What the pixel knows when the purchase completes: the click id chosen from the cookies
  with its time stamp, and the checkout event.\<close>

record checkout =
  saved_yclid :: string
  saved_ts :: string
  event_timestamp :: string
  total_amount :: "int option"
  order_id :: string

record beacon_payload =
  b_yclid :: string
  b_visitedAt :: "string option"
  b_conversionedAt :: string
  b_amount :: "int option"
  b_orderId :: string
  b_nonce :: string

text \<open>A request as sent: the \<open>X-POW\<close> header and the encrypted body, together with the
  payload that was encrypted, kept for inspection.\<close>

record beacon_request =
  sent_pow :: string
  sent_body :: string
  sent_payload :: beacon_payload

datatype fetch_outcome = ResponseOk | ResponseNotOk | FetchFails

text \<open>
  The browser as one run of the beacon meets it.  The attempts are numbered by
  \<open>retryCount\<close>; each attempt draws its own UUID, its own encryption, and its own clock and
  random values for the proof of work, and gets its own answer from the network.
\<close>

record beacon_env =
  randomUUID :: "nat \<Rightarrow> string"
  encrypt :: "nat \<Rightarrow> beacon_payload \<Rightarrow> string"
  client_btoa :: "string \<Rightarrow> string"
  client_sha256 :: "string \<Rightarrow> 8 word list"
  pow_fuel :: nat
  pow_now :: "nat \<Rightarrow> int"
  pow_rand :: "nat \<Rightarrow> 16 word list"
  fetch_answer :: "nat \<Rightarrow> beacon_request \<Rightarrow> fetch_outcome"

definition MAX_RETRIES :: nat where
  "MAX_RETRIES = 3"

text \<open>The payload object built at the start of every call.\<close>

definition attempt_payload :: "beacon_env \<Rightarrow> checkout \<Rightarrow> nat \<Rightarrow> beacon_payload" where
  "attempt_payload e ev retryCount =
     \<lparr>b_yclid = saved_yclid ev,
      b_visitedAt = (if saved_ts ev = [] then None else Some (saved_ts ev)),
      b_conversionedAt = event_timestamp ev,
      b_amount = total_amount ev,
      b_orderId = order_id ev,
      b_nonce = randomUUID e retryCount\<rparr>"

text \<open>
  \<open>sendConversionData\<close>: \<open>None\<close> when a proof-of-work search does not end; otherwise the
  returned flag and the requests sent, first attempt first.  The import of the configured key
  and the encryption are taken to succeed.  A response that is not OK and a failing \<open>fetch\<close>
  both end in the \<open>catch\<close>.
\<close>

function sendConversionData ::
  "beacon_env \<Rightarrow> checkout \<Rightarrow> nat \<Rightarrow> (bool \<times> beacon_request list) option" where
  "sendConversionData e ev retryCount =
     (let payload = attempt_payload e ev retryCount;
          jwe = encrypt e retryCount payload
      in (case makePow (client_btoa e) (client_sha256 e) (pow_fuel e) (pow_now e retryCount)
                 (pow_rand e retryCount) of
            None \<Rightarrow> None
          | Some pow \<Rightarrow>
              let req = \<lparr>sent_pow = pow, sent_body = jwe, sent_payload = payload\<rparr>
              in if fetch_answer e retryCount req = ResponseOk then Some (True, [req])
                 else if retryCount < MAX_RETRIES - 1
                   then (case sendConversionData e ev (retryCount + 1) of
                           None \<Rightarrow> None
                         | Some (ok, reqs) \<Rightarrow> Some (ok, req # reqs))
                   else Some (False, [req])))"
  by pat_completeness auto
termination
  by (relation "measure (\<lambda>(e, ev, retryCount). MAX_RETRIES - retryCount)")
     (auto simp: MAX_RETRIES_def)

declare sendConversionData.simps [simp del]

subsection \<open>A concrete purchase\<close>

definition demo_checkout :: checkout where
  "demo_checkout = \<lparr>saved_yclid = ''YSS.1.a'', saved_ts = ''visited'',
                    event_timestamp = ''converted'', total_amount = Some 1000,
                    order_id = ''123''\<rparr>"

text \<open>A browser whose first two deliveries fail and whose third succeeds.\<close>

definition demo_beacon_env :: beacon_env where
  "demo_beacon_env =
     \<lparr>randomUUID = (\<lambda>k. ''uuid-'' @ string_of_nat k),
      encrypt = (\<lambda>k p. ''jwe-'' @ string_of_nat k),
      client_btoa = base64_encode,
      client_sha256 = toy_digest,
      pow_fuel = 10,
      pow_now = (\<lambda>k. 1690000000123 + 500 * int k),
      pow_rand = (\<lambda>k. [1, 65535, 3]),
      fetch_answer = (\<lambda>k req. if k < 2 then FetchFails else ResponseOk)\<rparr>"

section \<open>Properties of the reference base64 codec\<close>

lemma of_char_b64_char:
  "n < 64 \<Longrightarrow> (of_char (b64_char n) :: nat) =
     (if n < 26 then n + 65 else if n < 52 then n + 71 else if n < 62 then n - 4
      else if n = 62 then 43 else 47)"
  by (simp add: b64_char_def)

lemma b64_value_char: "n < 64 \<Longrightarrow> b64_value (b64_char n) = Some n"
  unfolding b64_value_def Let_def
  by (simp only: of_char_b64_char) (auto split: if_splits)

lemma b64_char_not_pad: "n < 64 \<Longrightarrow> b64_char n \<noteq> CHR ''=''"
proof
  assume n: "n < 64" and "b64_char n = CHR ''=''"
  then have "(of_char (b64_char n) :: nat) = 61" by simp
  with n show False by (simp add: of_char_b64_char split: if_splits)
qed

lemma map_filter_Cons_Some: "f x = Some y \<Longrightarrow> List.map_filter f (x # xs) = y # List.map_filter f xs"
  by (simp add: List.map_filter_def)

lemma b64_values_Nil: "b64_values [] = []"
  by (simp add: b64_values_def)

lemma b64_values_pad: "b64_values (CHR ''='' # t) = []"
  by (simp add: b64_values_def)

lemma b64_values_char: "n < 64 \<Longrightarrow> b64_values (b64_char n # t) = n # b64_values t"
  by (simp add: b64_values_def b64_char_not_pad map_filter_Cons_Some b64_value_char)

lemma sextet2_div: "b < 256 \<Longrightarrow> ((a mod 4) * 16 + b div 16) div 16 = a mod (4::nat)"
  by (simp add: less_mult_imp_div_less)

lemma sextet2_mod: "b < 256 \<Longrightarrow> ((a mod 4) * 16 + b div 16) mod 16 = b div (16::nat)"
  by (simp add: less_mult_imp_div_less)

lemma sextet3_div: "c < 256 \<Longrightarrow> ((b mod 16) * 4 + c div 64) div 4 = b mod (16::nat)"
  by (simp add: less_mult_imp_div_less)

lemma sextet3_mod: "c < 256 \<Longrightarrow> ((b mod 16) * 4 + c div 64) mod 4 = c div (64::nat)"
  by (simp add: less_mult_imp_div_less)

lemma decode_group:
  assumes "b < 256" "c < (256::nat)"
  shows "(a div 4) * 4 + ((a mod 4) * 16 + b div 16) div 16 = a"
    and "(((a mod 4) * 16 + b div 16) mod 16) * 16 + ((b mod 16) * 4 + c div 64) div 4 = b"
    and "(((b mod 16) * 4 + c div 64) mod 4) * 64 + c mod 64 = c"
  using assms by (simp_all add: sextet2_div sextet2_mod sextet3_div sextet3_mod)

lemma sextet_bounds:
  assumes "a < 256" "b < 256" "c < (256::nat)"
  shows "a div 4 < 64" "(a mod 4) * 16 + b div 16 < 64" "(b mod 16) * 4 + c div 64 < 64"
    "c mod 64 < 64" "(a mod 4) * 16 < 64" "(b mod 16) * 4 < 64"
proof -
  show "a div 4 < 64" using assms(1) by (simp add: less_mult_imp_div_less)
  have "a mod 4 \<le> 3" by simp
  moreover have "b div 16 \<le> 15" using assms(2) by (simp add: less_mult_imp_div_less Suc_leI flip: less_Suc_eq_le)
  ultimately show "(a mod 4) * 16 + b div 16 < 64" by linarith
  have "b mod 16 \<le> 15" by simp
  moreover have "c div 64 \<le> 3" using assms(3) by (simp add: less_mult_imp_div_less flip: less_Suc_eq_le)
  ultimately show "(b mod 16) * 4 + c div 64 < 64" by linarith
  show "c mod 64 < 64" by simp
  show "(a mod 4) * 16 < 64" using \<open>a mod 4 \<le> 3\<close> by linarith
  show "(b mod 16) * 4 < 64" using \<open>b mod 16 \<le> 15\<close> by linarith
qed

lemma decode_tail1: "(a div 4) * 4 + ((a mod 4) * 16) div 16 = (a::nat)"
  by simp

lemma decode_tail2:
  assumes "b < (256::nat)"
  shows "(((a mod 4) * 16 + b div 16) mod 16) * 16 + ((b mod 16) * 4) div 4 = b"
  using assms by (simp add: sextet2_mod)

lemma b64_decode_encode_bytes:
  "list_all (\<lambda>x. x < 256) bs \<Longrightarrow> b64_decode_values (b64_values (b64_encode_bytes bs)) = bs"
proof (induction bs rule: b64_encode_bytes.induct)
  case 1
  then show ?case by (simp add: b64_values_Nil)
next
  case (2 a)
  then have a: "a < 256" by simp
  have "b64_values (b64_encode_bytes [a]) = [a div 4, (a mod 4) * 16]"
    using sextet_bounds(1,5)[OF a a a] by (simp add: b64_values_char b64_values_pad)
  then show ?case by simp
next
  case (3 a b)
  then have ab: "a < 256" "b < 256" by simp_all
  have "b64_values (b64_encode_bytes [a, b]) =
          [a div 4, (a mod 4) * 16 + b div 16, (b mod 16) * 4]"
    using sextet_bounds(1,2,6)[OF ab ab(1)] by (simp add: b64_values_char b64_values_pad)
  then show ?case using ab by (simp add: sextet2_div sextet2_mod)
next
  case (4 a b c rest)
  then have abc: "a < 256" "b < 256" "c < 256" and r: "list_all (\<lambda>x. x < 256) rest" by simp_all
  from 4(1)[OF r] have IH: "b64_decode_values (b64_values (b64_encode_bytes rest)) = rest" .
  have "b64_values (b64_encode_bytes (a # b # c # rest)) =
          [a div 4, (a mod 4) * 16 + b div 16, (b mod 16) * 4 + c div 64, c mod 64]
          @ b64_values (b64_encode_bytes rest)"
    using sextet_bounds(1,2,3,4)[OF abc] by (simp add: b64_values_char)
  then show ?case using abc IH by (simp add: sextet2_div sextet2_mod sextet3_div sextet3_mod)
qed

lemma of_char_lt_256: "(of_char c :: nat) < 256"
proof -
  have "(of_char c :: nat) mod 256 = of_char c" by (rule of_char_mod_256)
  moreover have "(of_char c :: nat) mod 256 < 256" by simp
  ultimately show ?thesis by simp
qed

lemma base64_round_trip: "base64_decode (base64_encode s) = s"
proof -
  have "list_all (\<lambda>x. x < 256) (map of_char s :: nat list)"
    by (simp add: list_all_iff of_char_lt_256)
  then have "b64_decode_values (b64_values (b64_encode_bytes (map of_char s))) = map of_char s"
    by (rule b64_decode_encode_bytes)
  then show ?thesis
    by (simp add: base64_decode_def base64_encode_def comp_def)
qed

lemma base64_encode_nonempty: "s \<noteq> [] \<Longrightarrow> base64_encode s \<noteq> []"
  by (cases "map of_char s :: nat list" rule: b64_encode_bytes.cases) (auto simp: base64_encode_def)


section \<open>Proof of work: generation and verification agree\<close>

lemma zeros_agree: "makePow_zeros z h = checkPow_zeros z h"
  by (induction h arbitrary: z) (simp_all add: Let_def)

lemma digit_cases: "d < 10 \<Longrightarrow> d \<in> {0, 1, 2, 3, 4, 5, 6, 7, 8, 9::nat}"
  by auto

lemma is_digit_digit_char: "d < 10 \<Longrightarrow> is_digit (digit_char d)"
  by (drule digit_cases) (auto simp: is_digit_def digit_char_def)

lemma digit_val_digit_char: "d < 10 \<Longrightarrow> digit_val (digit_char d) = d"
  by (drule digit_cases) (auto simp: digit_val_def digit_char_def)

lemma string_of_nat_digits: "list_all is_digit (string_of_nat n)"
proof (induction n rule: string_of_nat.induct)
  case (1 n)
  show ?case
  proof (cases "n < 10")
    case True
    then show ?thesis by (subst string_of_nat.simps) (simp add: is_digit_digit_char)
  next
    case False
    with 1 show ?thesis by (subst string_of_nat.simps) (simp add: is_digit_digit_char)
  qed
qed

lemma string_of_nat_nonempty: "string_of_nat n \<noteq> []"
  by (subst string_of_nat.simps) simp

lemma digits_value_snoc: "digits_value (ds @ [c]) = 10 * digits_value ds + digit_val c"
  by (simp add: digits_value_def)

lemma digits_value_string_of_nat: "digits_value (string_of_nat n) = n"
proof (induction n rule: string_of_nat.induct)
  case (1 n)
  show ?case
  proof (cases "n < 10")
    case True
    then show ?thesis
      by (subst string_of_nat.simps) (simp add: digits_value_def digit_val_digit_char)
  next
    case False
    with 1 have "digits_value (string_of_nat (n div 10)) = n div 10" by simp
    with False show ?thesis
      by (subst string_of_nat.simps) (simp add: digits_value_snoc digit_val_digit_char)
  qed
qed

lemma is_digit_not_ws: "is_digit c \<Longrightarrow> \<not> is_ws c"
  by (auto simp: is_digit_def is_ws_def)

lemma is_digit_not_sign: "is_digit c \<Longrightarrow> c \<noteq> CHR ''-'' \<and> c \<noteq> CHR ''+'' \<and> c \<noteq> CHR '':''"
  by (auto simp: is_digit_def)

lemma parseInt_digits:
  assumes "ds \<noteq> []" "list_all is_digit ds"
  shows "parseInt ds = Some (int (digits_value ds))"
proof -
  from assms obtain d ds' where ds: "ds = d # ds'" by (cases ds) auto
  with assms have d: "is_digit d" by simp
  have dw: "dropWhile is_ws ds = ds" using ds d by (simp add: is_digit_not_ws)
  have tw: "takeWhile is_digit ds = ds" using assms(2) by (simp add: list_all_iff)
  have hd: "hd ds \<noteq> CHR ''-''" "hd ds \<noteq> CHR ''+''"
    using ds is_digit_not_sign[OF d] by simp_all
  show ?thesis unfolding parseInt_def Let_def dw
    using assms(1) hd by (simp add: tw)
qed

lemma parseInt_minus_digits:
  assumes "ds \<noteq> []" "list_all is_digit ds"
  shows "parseInt (CHR ''-'' # ds) = Some (- int (digits_value ds))"
proof -
  have dw: "dropWhile is_ws (CHR ''-'' # ds) = CHR ''-'' # ds" by (simp add: is_ws_def)
  have tw: "takeWhile is_digit ds = ds" using assms(2) by (simp add: list_all_iff)
  show ?thesis unfolding parseInt_def Let_def dw
    using assms(1) by (simp add: tw)
qed

lemma parseInt_string_of_int: "parseInt (string_of_int i) = Some i"
proof (cases "i < 0")
  case True
  then show ?thesis
    by (simp add: string_of_int_def parseInt_minus_digits string_of_nat_nonempty
        string_of_nat_digits digits_value_string_of_nat)
next
  case False
  then show ?thesis
    by (simp add: string_of_int_def parseInt_digits string_of_nat_nonempty
        string_of_nat_digits digits_value_string_of_nat)
qed

lemma split_nonempty: "split c s \<noteq> []"
  by (induction s) (auto split: list.splits)

lemma hd_split_prefix: "c \<notin> set a \<Longrightarrow> hd (split c (a @ c # rest)) = a"
  using split_nonempty by (induction a) (auto split: list.splits)

lemma string_of_int_no_colon: "CHR '':'' \<notin> set (string_of_int i)"
  using string_of_nat_digits is_digit_not_sign
  by (auto simp: string_of_int_def list_all_iff)

lemma bit_length_le: "n < 2 ^ k \<Longrightarrow> bit_length n \<le> k"
proof (induction n arbitrary: k rule: bit_length.induct)
  case (1 n)
  show ?case
  proof (cases "n = 0")
    case True
    then show ?thesis by (subst bit_length.simps) simp
  next
    case False
    with 1(2) obtain k' where k: "k = Suc k'" by (cases k) auto
    with 1(2) have "n div 2 < 2 ^ k'" by auto
    with 1(1)[OF False] have "bit_length (n div 2) \<le> k'" by simp
    with False k show ?thesis by (subst bit_length.simps) simp
  qed
qed

lemma bit_length_zero_iff: "bit_length n = 0 \<longleftrightarrow> n = 0"
  by (subst bit_length.simps) simp

lemma unat_ucast_byte:
  fixes byte :: "8 word"
  shows "unat (ucast byte :: 32 word) = unat byte"
proof -
  have "unat byte < 2 ^ 8" using unsigned_less[of byte, where 'a = nat] by simp
  then have "unat byte < 2 ^ 32" by simp
  then show ?thesis by (simp add: unsigned_ucast_eq take_bit_nat_eq_self)
qed

lemma byte_zeros_range:
  fixes byte :: "8 word"
  shows "0 \<le> clz32 (ucast byte) - 24 \<and> clz32 (ucast byte) - 24 \<le> 8"
proof -
  have "unat byte < 2 ^ 8" using unsigned_less[of byte, where 'a = nat] by simp
  then have "bit_length (unat byte) \<le> 8" by (rule bit_length_le)
  then show ?thesis by (simp add: clz32_def unat_ucast_byte)
qed

lemma byte_zeros_full_iff:
  fixes byte :: "8 word"
  shows "clz32 (ucast byte) - 24 = 8 \<longleftrightarrow> byte = 0"
proof -
  have "clz32 (ucast byte) - 24 = 8 \<longleftrightarrow> bit_length (unat byte) = 0"
    using byte_zeros_range[of byte] by (simp add: clz32_def unat_ucast_byte)
  also have "\<dots> \<longleftrightarrow> byte = 0" by (simp add: bit_length_zero_iff unat_eq_0)
  finally show ?thesis .
qed

text \<open>
  The counting rule in closed form: eight bits for every leading zero byte, plus the leading
  zero bits of the first byte that is not zero; the bytes after it are not read.
\<close>

lemma checkPow_zeros_closed_form:
  "checkPow_zeros z hash =
     z + 8 * int (length (takeWhile (\<lambda>b. b = 0) hash)) +
       (case dropWhile (\<lambda>b. b = 0) hash of [] \<Rightarrow> 0 | b # _ \<Rightarrow> clz32 (ucast b) - 24)"
proof (induction hash arbitrary: z)
  case Nil
  then show ?case by simp
next
  case (Cons b hash)
  show ?case
  proof (cases "b = 0")
    case True
    then have "clz32 (ucast b) - 24 = 8" using byte_zeros_full_iff[of b] by simp
    with True Cons show ?thesis by (simp add: Let_def)
  next
    case False
    then have "clz32 (ucast b) - 24 \<noteq> 8" using byte_zeros_full_iff[of b] by simp
    with False show ?thesis by (simp add: Let_def)
  qed
qed

text \<open>
  What \<open>makePow\<close> returns: the encoding of the seed followed by the first counter, counting
  up from the start value, whose digest reaches the difficulty.
\<close>

lemma makePow_loop_result:
  assumes "makePow_loop btoa sha fuel seedStr c0 = Some token"
  shows "\<exists>c\<ge>c0. token = btoa (seedStr @ string_of_nat c)
            \<and> makePow_zeros 0 (sha (seedStr @ string_of_nat c)) \<ge> DIFFICULTY
            \<and> (\<forall>c'. c0 \<le> c' \<and> c' < c \<longrightarrow>
                   makePow_zeros 0 (sha (seedStr @ string_of_nat c')) < DIFFICULTY)"
  using assms
proof (induction fuel arbitrary: c0)
  case 0
  then show ?case by simp
next
  case (Suc fuel)
  show ?case
  proof (cases "makePow_zeros 0 (sha (seedStr @ string_of_nat c0)) \<ge> DIFFICULTY")
    case True
    with Suc.prems have "token = btoa (seedStr @ string_of_nat c0)" by (simp add: Let_def)
    with True show ?thesis by (intro exI[of _ c0]) simp
  next
    case False
    with Suc.prems have "makePow_loop btoa sha fuel seedStr (c0 + 1) = Some token"
      by (simp add: Let_def)
    from Suc.IH[OF this] obtain c where c: "c \<ge> c0 + 1"
      "token = btoa (seedStr @ string_of_nat c)"
      "makePow_zeros 0 (sha (seedStr @ string_of_nat c)) \<ge> DIFFICULTY"
      "\<forall>c'. c0 + 1 \<le> c' \<and> c' < c \<longrightarrow>
           makePow_zeros 0 (sha (seedStr @ string_of_nat c')) < DIFFICULTY" by blast
    have "\<forall>c'. c0 \<le> c' \<and> c' < c \<longrightarrow>
           makePow_zeros 0 (sha (seedStr @ string_of_nat c')) < DIFFICULTY"
    proof (intro allI impI)
      fix c' assume a: "c0 \<le> c' \<and> c' < c"
      show "makePow_zeros 0 (sha (seedStr @ string_of_nat c')) < DIFFICULTY"
      proof (cases "c' = c0")
        case True with False show ?thesis by simp
      next
        case False with a c(4) show ?thesis by simp
      qed
    qed
    with c show ?thesis by (intro exI[of _ c]) simp
  qed
qed

text \<open>Enough fuel finds the counter: the search returns whenever some counter qualifies.\<close>

lemma makePow_loop_finds:
  assumes "makePow_zeros 0 (sha (seedStr @ string_of_nat (c0 + k))) \<ge> DIFFICULTY"
  shows "\<exists>token. makePow_loop btoa sha (Suc k) seedStr c0 = Some token"
  using assms
proof (induction k arbitrary: c0)
  case 0
  then show ?case by (simp add: Let_def)
next
  case (Suc k)
  from Suc.prems have "makePow_zeros 0 (sha (seedStr @ string_of_nat (Suc c0 + k))) \<ge> DIFFICULTY"
    by simp
  from Suc.IH[OF this] obtain token where
    rec: "makePow_loop btoa sha (Suc k) seedStr (c0 + 1) = Some token" by auto
  show ?case
  proof (cases "makePow_zeros 0 (sha (seedStr @ string_of_nat c0)) \<ge> DIFFICULTY")
    case True
    then show ?thesis by (subst makePow_loop.simps(2)) (simp add: Let_def)
  next
    case False
    then show ?thesis using rec by (subst makePow_loop.simps(2)) (simp add: Let_def)
  qed
qed

lemma ascii_string_of_nat: "ascii (string_of_nat n)"
  using string_of_nat_digits[of n] by (auto simp: ascii_def is_digit_def list_all_iff)

lemma ascii_string_of_int: "ascii (string_of_int i)"
  using ascii_string_of_nat by (auto simp: string_of_int_def ascii_def)

lemma ascii_append: "ascii (a @ b) \<longleftrightarrow> ascii a \<and> ascii b"
  by (auto simp: ascii_def)

lemma ascii_concat: "list_all ascii ss \<Longrightarrow> ascii (concat ss)"
  by (auto simp: ascii_def list_all_iff)

lemma ascii_makePow_seed: "ascii (makePow_seed now rand)"
proof -
  have "ascii (concat (map (\<lambda>r. string_of_nat (unat r)) rand))"
    by (rule ascii_concat) (simp add: ascii_string_of_nat list_all_iff)
  moreover have "ascii '':''" by (simp add: ascii_def)
  ultimately have "ascii ('':'' @ concat (map (\<lambda>r. string_of_nat (unat r)) rand) @ '':'')"
    by (simp only: ascii_append)
  then show ?thesis
    by (simp add: makePow_seed_def Let_def ascii_append ascii_string_of_int)
qed

lemma makePow_loop_numeral:
  "makePow_loop btoa sha (numeral k) seedStr counter =
     (let hash = sha (seedStr @ string_of_nat counter);
          zeros = makePow_zeros 0 hash
      in if zeros \<ge> DIFFICULTY then Some (btoa (seedStr @ string_of_nat counter))
         else makePow_loop btoa sha (pred_numeral k) seedStr (counter + 1))"
  by (simp add: numeral_eq_Suc)

text \<open>
  C2.  Every token that \<open>makePow\<close> returns is accepted by \<open>checkPow\<close> at any server time
  within \<open>POW_VALID_MS\<close> of the token's minute timestamp, provided the platform's base64
  decoder inverts its encoder on non-empty ASCII strings and both sides hash with the same
  function.  The two leading-zero loops compute the same count on every digest, both
  thresholds are 10, and the token encodes the seed followed by the first counter whose
  digest reaches the threshold.
\<close>

theorem pow_round_trip:
  assumes gen: "makePow btoa sha fuel now_client rand = Some token"
      and b64: "\<forall>s. s \<noteq> [] \<and> ascii s \<longrightarrow> btoa s \<noteq> [] \<and> b64dec (btoa s) = s"
      and win: "\<bar>now_server - (now_client div 60000) * 60000\<bar> \<le> POW_VALID_MS"
  shows "checkPow b64dec sha now_server (Some token)
         \<and> (\<forall>z hash. makePow_zeros z hash = checkPow_zeros z hash)
         \<and> DIFFICULTY = 10 \<and> POW_BITS = 10
         \<and> (\<exists>c. token = btoa (makePow_seed now_client rand @ string_of_nat c)
               \<and> makePow_zeros 0 (sha (makePow_seed now_client rand @ string_of_nat c)) \<ge> 10
               \<and> (\<forall>c'<c. makePow_zeros 0
                     (sha (makePow_seed now_client rand @ string_of_nat c')) < 10))"
proof -
  let ?seed = "makePow_seed now_client rand"
  from gen obtain c where tok: "token = btoa (?seed @ string_of_nat c)"
    and z: "makePow_zeros 0 (sha (?seed @ string_of_nat c)) \<ge> DIFFICULTY"
    and first: "\<forall>c'. 0 \<le> c' \<and> c' < c \<longrightarrow>
                   makePow_zeros 0 (sha (?seed @ string_of_nat c')) < DIFFICULTY"
    unfolding makePow_def using makePow_loop_result by blast
  let ?data = "?seed @ string_of_nat c"
  have "ascii ?data" "?data \<noteq> []"
    by (simp_all add: ascii_append ascii_makePow_seed ascii_string_of_nat string_of_nat_nonempty)
  with b64 tok have ne: "token \<noteq> []" and dec: "b64dec token = ?data" by auto
  obtain rest where data: "?data = string_of_int (now_client div 60000) @ CHR '':'' # rest"
    by (simp add: makePow_seed_def Let_def)
  have hd: "hd (split CHR '':'' ?data) = string_of_int (now_client div 60000)"
    unfolding data by (rule hd_split_prefix) (rule string_of_int_no_colon)
  have "checkPow_zeros 0 (sha ?data) \<ge> POW_BITS"
    using z by (simp add: zeros_agree DIFFICULTY_def POW_BITS_def)
  then have chk: "checkPow b64dec sha now_server (Some token)"
    using ne win by (simp add: checkPow_def dec hd parseInt_string_of_int Let_def)
  have "\<exists>c. token = btoa (?seed @ string_of_nat c)
               \<and> makePow_zeros 0 (sha (?seed @ string_of_nat c)) \<ge> 10
               \<and> (\<forall>c'<c. makePow_zeros 0 (sha (?seed @ string_of_nat c')) < 10)"
    using tok z first by (intro exI[of _ c]) (simp add: DIFFICULTY_def)
  with chk show ?thesis by (simp add: zeros_agree DIFFICULTY_def POW_BITS_def)
qed

lemma demo_seed: "makePow_seed 1690000000123 [1, 65535, 3] = ''28166666:1655353:''"
  by (simp add: makePow_seed_def string_of_int_def string_of_nat.simps digit_char_def)

lemma demo_makePow:
  "makePow base64_encode toy_digest 10 1690000000123 [1, 65535, 3]
     = Some (base64_encode ''28166666:1655353:3'')"
  by (simp add: makePow_def demo_seed makePow_loop_numeral toy_digest_def string_of_nat.simps
      digit_char_def clz32_def bit_length.simps DIFFICULTY_def)

theorem pow_round_trip_witness:
  "makePow base64_encode toy_digest 10 1690000000123 [1, 65535, 3]
     = Some (base64_encode ''28166666:1655353:3'')
   \<and> \<bar>1690000050000 - (1690000000123 div 60000) * 60000\<bar> \<le> POW_VALID_MS
   \<and> checkPow base64_decode toy_digest 1690000050000 (Some (base64_encode ''28166666:1655353:3''))"
proof -
  have b64: "\<forall>s. s \<noteq> [] \<and> ascii s \<longrightarrow>
               base64_encode s \<noteq> [] \<and> base64_decode (base64_encode s) = s"
    by (simp add: base64_round_trip base64_encode_nonempty)
  have win: "\<bar>1690000050000 - (1690000000123 div 60000) * 60000\<bar> \<le> POW_VALID_MS"
    by (simp add: POW_VALID_MS_def)
  from pow_round_trip[OF demo_makePow b64 win]
  have chk: "checkPow base64_decode toy_digest 1690000050000
               (Some (base64_encode ''28166666:1655353:3''))"
    by (rule conjunct1)
  show ?thesis by (rule conjI[OF demo_makePow conjI[OF win chk]])
qed

section \<open>Facts about the concrete deployment\<close>

lemma parseInt_demo_minute: "parseInt ''28166666'' = Some 28166666"
  by (simp add: parseInt_def is_ws_def is_digit_def digits_value_def digit_val_def)

lemma demo_checkPow:
  "checkPow base64_decode toy_digest 1690000050000 (Some (base64_encode ''28166666:1655353:3''))"
  by (simp add: checkPow_def base64_round_trip base64_encode_nonempty parseInt_demo_minute
      toy_digest_def clz32_def bit_length.simps POW_BITS_def POW_VALID_MS_def)

lemma demo_receive_A:
  "action_receive (demo_env lk) demo_mem demo_db (demo_request POST ''A'') =
     (\<lparr>sessionCache = Some (demo_session, 1690000350001),
       privateKeyCache = (\<lambda>_. None)(''k1'' \<mapsto> CryptoKey ''pem1'')\<rparr>,
      demo_db\<lparr>pixelNonce := [''n1'']\<rparr>,
      Inr \<lparr>c_yclid = ''YSS.1.a'', c_visitedAt = ''visited'', c_conversionedAt = ''converted'',
           c_amount = Integral 1000, c_orderId = ''123'', c_nonce = ''n1''\<rparr>)"
  by (simp add: action_receive_def demo_env_def demo_request_def demo_checkPow
      getSession_def session_findFirst_def demo_db_def demo_mem_def getPrivateKey_def
      apiKeyPair_findUnique_def demo_key_def importPKCS8_def demo_parse_def demo_payload_def
      demo_prisma_Int_def check_payload_def dedup_transaction_def ALLOW_SESSION_TTL_MS_def Let_def)


lemmas demo_defs =
  demo_env_def demo_request_def getSession_def session_findFirst_def demo_db_def demo_mem_def
  getPrivateKey_def apiKeyPair_findUnique_def demo_key_def importPKCS8_def demo_parse_def
  demo_payload_def demo_prisma_Int_def check_payload_def dedup_transaction_def
  ALLOW_SESSION_TTL_MS_def action_verify_order_def action_persist_def order_known_def order_known_late_def
  errorResponse_def successResponse_def internalErrorResponse_def task_response_def


lemma demo_facts:
  "req_method (demo_request m b) = m"
  "body_text (demo_request m b) = b"
  "checkPow (b64decode (demo_env lk)) (sha256 (demo_env lk)) (now_pow (demo_env lk))
     (x_pow (demo_request m b))"
  "decodeProtectedHeader (demo_env lk) b = Some (''k1'', ''RSA-OAEP-256'')"
  "snd (getSession (now_session (demo_env lk)) demo_mem demo_db) = Some demo_session"
  "snd (getPrivateKey demo_mem demo_db ''k1'') = Some (CryptoKey ''pem1'')"
  "compactDecrypt (demo_env lk) b (CryptoKey ''pem1'') = Some b"
  "JSON_parse (demo_env lk) ''A'' = Some (demo_payload ''YSS.1.a'' ''123'' ''n1'')"
  "check_payload (demo_payload ''YSS.1.a'' ''123'' ''n1'') = Some demo_conversion_A"
  "\<not> snd (dedup_transaction demo_db (c_nonce demo_conversion_A) ''123'')"
  "c_orderId demo_conversion_A = ''123''"
  "Date_parse (demo_env lk) (c_visitedAt demo_conversion_A) = Some 1689999000000"
  "Date_parse (demo_env lk) (c_conversionedAt demo_conversion_A) = Some 1690000040000"
  "prisma_Int (demo_env lk) (c_amount demo_conversion_A) = Some 1000"
  "\<not> create_fails (demo_env lk)"
  "c_yclid demo_conversion_A \<notin> yclid ` set (yahooConversion demo_db)"
  "order_lookup (demo_env lk) = lk"
  "now_order (demo_env lk) = 1690000051002"
  using demo_checkPow
  by (simp_all add: demo_defs demo_conversion_A_def Let_def)


text \<open>An amount that the integer column refuses is answered with code 12, and nothing is
  stored: an integer of more than 64 bits, and a number with a fraction.\<close>

lemma demo_persist_refuses_amount:
  "action_persist (demo_env lk) demo_db
     (demo_conversion_A\<lparr>c_amount := Integral 9223372036854775808\<rparr>)
   = (demo_db, errorResponse 12)"
  "action_persist (demo_env lk) demo_db (demo_conversion_A\<lparr>c_amount := NonIntegral\<rparr>)
   = (demo_db, errorResponse 12)"
  by (simp_all add: action_persist_def demo_defs demo_conversion_A_def)

section \<open>The gateway: responses of \<open>action\<close>\<close>

lemma getPrivateKey_after_getSession:
  "snd (getPrivateKey (fst (getSession n mem db)) db k) = snd (getPrivateKey mem db k)"
  by (auto simp: getPrivateKey_def getSession_def Let_def split: option.splits prod.splits)

lemma action_rejects_non_post: "req_method req \<noteq> POST \<Longrightarrow> action_response e mem db req = errorResponse 1"
  by (simp add: action_response_def action_def action_receive_def)

lemma action_rejects_bad_pow:
  "req_method req = POST \<Longrightarrow> \<not> checkPow (b64decode e) (sha256 e) (now_pow e) (x_pow req)
   \<Longrightarrow> action_response e mem db req = errorResponse 2"
  by (simp add: action_response_def action_def action_receive_def)

lemma action_rejects_empty_body:
  "req_method req = POST \<Longrightarrow> checkPow (b64decode e) (sha256 e) (now_pow e) (x_pow req)
   \<Longrightarrow> body_text req = [] \<Longrightarrow> action_response e mem db req = errorResponse 3"
  by (simp add: action_response_def action_def action_receive_def)

text \<open>The request passed the method, proof-of-work and body checks.\<close>

lemma action_rejects_algorithm:
  assumes "req_method req = POST" "checkPow (b64decode e) (sha256 e) (now_pow e) (x_pow req)"
    "body_text req \<noteq> []"
    "decodeProtectedHeader e (body_text req) = Some (k, alg)" "alg \<noteq> ''RSA-OAEP-256''"
  shows "action_response e mem db req = errorResponse 4"
  using assms by (simp add: action_response_def action_def action_receive_def)

lemma session_and_key:
  assumes "snd (getSession n mem db) = S" "snd (getPrivateKey mem db k) = K"
  obtains m1 m2 where "getSession n mem db = (m1, S)" "getPrivateKey m1 db k = (m2, K)"
proof -
  obtain m1 where g: "getSession n mem db = (m1, S)"
    using assms(1) by (cases "getSession n mem db") auto
  have "snd (getPrivateKey m1 db k) = K"
    using getPrivateKey_after_getSession[of n mem db k] g assms(2) by simp
  then obtain m2 where "getPrivateKey m1 db k = (m2, K)"
    by (cases "getPrivateKey m1 db k") auto
  with g that show ?thesis by blast
qed

lemma action_rejects_no_session:
  assumes "req_method req = POST" "checkPow (b64decode e) (sha256 e) (now_pow e) (x_pow req)"
    "body_text req \<noteq> []"
    "decodeProtectedHeader e (body_text req) = Some (k, ''RSA-OAEP-256'')"
    "snd (getSession (now_session e) mem db) = None"
  shows "action_response e mem db req = errorResponse 5"
proof -
  obtain m1 m2 where "getSession (now_session e) mem db = (m1, None)"
    "getPrivateKey m1 db k = (m2, snd (getPrivateKey mem db k))"
    using session_and_key[OF assms(5) refl] by blast
  with assms show ?thesis
    by (simp add: action_response_def action_def action_receive_def)
qed

lemma action_rejects_no_key:
  assumes "req_method req = POST" "checkPow (b64decode e) (sha256 e) (now_pow e) (x_pow req)"
    "body_text req \<noteq> []"
    "decodeProtectedHeader e (body_text req) = Some (k, ''RSA-OAEP-256'')"
    "snd (getSession (now_session e) mem db) = Some s"
    "snd (getPrivateKey mem db k) = None"
  shows "action_response e mem db req = errorResponse 6"
proof -
  obtain m1 m2 where "getSession (now_session e) mem db = (m1, Some s)"
    "getPrivateKey m1 db k = (m2, None)"
    using session_and_key[OF assms(5,6)] by blast
  with assms show ?thesis
    by (simp add: action_response_def action_def action_receive_def)
qed

text \<open>What \<open>action_receive\<close> returns once the checks up to the payload shape have passed.\<close>

lemma action_receive_checked:
  assumes "req_method req = POST" "checkPow (b64decode e) (sha256 e) (now_pow e) (x_pow req)"
    "body_text req \<noteq> []"
    "decodeProtectedHeader e (body_text req) = Some (k, ''RSA-OAEP-256'')"
    "snd (getSession (now_session e) mem db) = Some s"
    "snd (getPrivateKey mem db k) = Some ck"
    "compactDecrypt e (body_text req) ck = Some pt"
    "JSON_parse e pt = Some p"
    "check_payload p = Some c"
  shows "\<exists>m. action_receive e mem db req =
           (m, fst (dedup_transaction db (c_nonce c) (c_orderId c)),
            if snd (dedup_transaction db (c_nonce c) (c_orderId c)) then Inl (errorResponse 8)
            else Inr c)"
proof -
  obtain m1 m2 where "getSession (now_session e) mem db = (m1, Some s)"
    "getPrivateKey m1 db k = (m2, Some ck)"
    using session_and_key[OF assms(5,6)] by blast
  with assms show ?thesis
    by (simp add: action_receive_def split: prod.splits)
qed

lemma action_rejects_payload_shape:
  assumes "req_method req = POST" "checkPow (b64decode e) (sha256 e) (now_pow e) (x_pow req)"
    "body_text req \<noteq> []"
    "decodeProtectedHeader e (body_text req) = Some (k, ''RSA-OAEP-256'')"
    "snd (getSession (now_session e) mem db) = Some s"
    "snd (getPrivateKey mem db k) = Some ck"
    "compactDecrypt e (body_text req) ck = Some pt"
    "JSON_parse e pt = Some p"
    "check_payload p = None"
  shows "action_response e mem db req = errorResponse 7"
proof -
  obtain m1 m2 where "getSession (now_session e) mem db = (m1, Some s)"
    "getPrivateKey m1 db k = (m2, Some ck)"
    using session_and_key[OF assms(5,6)] by blast
  with assms show ?thesis
    by (simp add: action_response_def action_def action_receive_def)
qed

lemma action_500_header:
  assumes "req_method req = POST" "checkPow (b64decode e) (sha256 e) (now_pow e) (x_pow req)"
    "body_text req \<noteq> []"
    "decodeProtectedHeader e (body_text req) = None"
  shows "action_response e mem db req = internalErrorResponse"
  using assms by (simp add: action_response_def action_def action_receive_def)

lemma action_500_decrypt:
  assumes "req_method req = POST" "checkPow (b64decode e) (sha256 e) (now_pow e) (x_pow req)"
    "body_text req \<noteq> []"
    "decodeProtectedHeader e (body_text req) = Some (k, ''RSA-OAEP-256'')"
    "snd (getSession (now_session e) mem db) = Some s"
    "snd (getPrivateKey mem db k) = Some ck"
    "compactDecrypt e (body_text req) ck = None"
  shows "action_response e mem db req = internalErrorResponse"
proof -
  obtain m1 m2 where "getSession (now_session e) mem db = (m1, Some s)"
    "getPrivateKey m1 db k = (m2, Some ck)"
    using session_and_key[OF assms(5,6)] by blast
  with assms show ?thesis
    by (simp add: action_response_def action_def action_receive_def)
qed

lemma action_500_parse:
  assumes "req_method req = POST" "checkPow (b64decode e) (sha256 e) (now_pow e) (x_pow req)"
    "body_text req \<noteq> []"
    "decodeProtectedHeader e (body_text req) = Some (k, ''RSA-OAEP-256'')"
    "snd (getSession (now_session e) mem db) = Some s"
    "snd (getPrivateKey mem db k) = Some ck"
    "compactDecrypt e (body_text req) ck = Some pt"
    "JSON_parse e pt = None"
  shows "action_response e mem db req = internalErrorResponse"
proof -
  obtain m1 m2 where "getSession (now_session e) mem db = (m1, Some s)"
    "getPrivateKey m1 db k = (m2, Some ck)"
    using session_and_key[OF assms(5,6)] by blast
  with assms show ?thesis
    by (simp add: action_response_def action_def action_receive_def)
qed

lemma action_response_checked:
  assumes "req_method req = POST" "checkPow (b64decode e) (sha256 e) (now_pow e) (x_pow req)"
    "body_text req \<noteq> []"
    "decodeProtectedHeader e (body_text req) = Some (k, ''RSA-OAEP-256'')"
    "snd (getSession (now_session e) mem db) = Some s"
    "snd (getPrivateKey mem db k) = Some ck"
    "compactDecrypt e (body_text req) ck = Some pt"
    "JSON_parse e pt = Some p"
    "check_payload p = Some c"
  shows "action_response e mem db req =
           (if snd (dedup_transaction db (c_nonce c) (c_orderId c)) then errorResponse 8
            else case action_verify_order e (c_orderId c) of
                   Some r \<Rightarrow> r
                 | None \<Rightarrow> snd (action_persist e
                             (fst (dedup_transaction db (c_nonce c) (c_orderId c))) c))"
proof -
  from action_receive_checked[OF assms] obtain m where
    "action_receive e mem db req =
           (m, fst (dedup_transaction db (c_nonce c) (c_orderId c)),
            if snd (dedup_transaction db (c_nonce c) (c_orderId c)) then Inl (errorResponse 8)
            else Inr c)" by blast
  then show ?thesis
    by (simp add: action_response_def action_def split: option.splits prod.splits)
qed


lemma dedup_keeps_conversions:
  "yahooConversion (fst (dedup_transaction db n oid)) = yahooConversion db"
  by (simp add: dedup_transaction_def)

lemma receive_range:
  assumes "action_receive e mem db req = (m, d, Inl r)"
  shows "r \<in> insert internalErrorResponse (errorResponse ` {1..8})"
  using assms
  by (auto simp: action_receive_def Let_def split: if_splits option.splits prod.splits)

lemma verify_range:
  assumes "action_verify_order e oid = Some r"
  shows "r \<in> errorResponse ` {9..11}"
  using assms
  by (auto simp: action_verify_order_def split: order_response.splits if_splits)

lemma persist_range:
  "snd (action_persist e d c) \<in> insert successResponse (errorResponse ` {12..12})"
  by (auto simp: action_persist_def split: option.splits)

lemma action_response_range:
  "action_response e mem db req
     \<in> {successResponse, internalErrorResponse} \<union> errorResponse ` {1..12}"
proof -
  obtain m d x where rc: "action_receive e mem db req = (m, d, x)"
    by (cases "action_receive e mem db req") auto
  show ?thesis
  proof (cases x)
    case (Inl r)
    with rc have "action_response e mem db req = r"
      by (simp add: action_response_def action_def)
    moreover from receive_range rc Inl
    have "r \<in> insert internalErrorResponse (errorResponse ` {1..8})" by blast
    ultimately show ?thesis by auto
  next
    case (Inr c)
    show ?thesis
    proof (cases "action_verify_order e (c_orderId c)")
      case (Some r)
      with rc Inr have "action_response e mem db req = r"
        by (simp add: action_response_def action_def)
      moreover from verify_range[OF Some] have "r \<in> errorResponse ` {9..11}" .
      ultimately show ?thesis by auto
    next
      case None
      with rc Inr have "action_response e mem db req = snd (action_persist e d c)"
        by (simp add: action_response_def action_def split: prod.splits)
      moreover note persist_range[of e d c]
      ultimately show ?thesis by auto
    qed
  qed
qed

lemma action_after_payload_checks:
  assumes "req_method req = POST" "checkPow (b64decode e) (sha256 e) (now_pow e) (x_pow req)"
    "body_text req \<noteq> []"
    "decodeProtectedHeader e (body_text req) = Some (k, ''RSA-OAEP-256'')"
    "snd (getSession (now_session e) mem db) = Some s"
    "snd (getPrivateKey mem db k) = Some ck"
    "compactDecrypt e (body_text req) ck = Some pt"
    "JSON_parse e pt = Some p"
    "check_payload p = Some c"
  shows "(snd (dedup_transaction db (c_nonce c) (c_orderId c)) \<longrightarrow>
            action_response e mem db req = errorResponse 8)
       \<and> (\<not> snd (dedup_transaction db (c_nonce c) (c_orderId c)) \<longrightarrow>
            (order_lookup e (c_orderId c) 0 = RequestThrows \<longrightarrow>
               action_response e mem db req = errorResponse 11)
          \<and> (order_lookup e (c_orderId c) 0 = OrderAbsent
               \<and> order_lookup e (c_orderId c) 1 = RequestThrows \<longrightarrow>
               action_response e mem db req = errorResponse 11)
          \<and> (order_lookup e (c_orderId c) 0 = OrderAbsent
               \<and> order_lookup e (c_orderId c) 1 = OrderAbsent \<longrightarrow>
               action_response e mem db req = errorResponse 9)
          \<and> (order_lookup e (c_orderId c) 0 = OrderFound t \<and> now_order e - t > 2 * 60000 \<longrightarrow>
               action_response e mem db req = errorResponse 10)
          \<and> (order_lookup e (c_orderId c) 0 = OrderFound t \<and> now_order e - t \<le> 2 * 60000 \<longrightarrow>
               (Date_parse e (c_visitedAt c) = None \<or> Date_parse e (c_conversionedAt c) = None
                  \<or> prisma_Int e (c_amount c) = None \<or> create_fails e
                  \<or> c_yclid c \<in> set (map yclid (yahooConversion db)) \<longrightarrow>
                  action_response e mem db req = errorResponse 12)
             \<and> (Date_parse e (c_visitedAt c) \<noteq> None \<and> Date_parse e (c_conversionedAt c) \<noteq> None
                  \<and> prisma_Int e (c_amount c) \<noteq> None \<and> \<not> create_fails e
                  \<and> c_yclid c \<notin> set (map yclid (yahooConversion db)) \<longrightarrow>
                  action_response e mem db req = successResponse)))"
  unfolding action_response_checked[OF assms]
  by (auto simp: action_verify_order_def action_persist_def dedup_keeps_conversions
      split: option.splits)


section \<open>The response codes of the gateway\<close>

text \<open>
  C7 (amended).  Every response of \<open>action\<close> is the 200 success response, the 500 response,
  or a 405 response with an error code from 1 to 12; the code is that of the first failing
  check, in the order of the handler.  Code 12 answers every failure of the insertion: a
  date that does not parse, an amount that the integer column refuses, a \<open>yclid\<close> that is
  stored already, or any other failure of \<open>create\<close>.  Failures inside the handler that no
  check catches give 500: here the exceptions of the header decoding, the decryption and
  the JSON parsing.  \<open>loader\<close> answers OPTIONS with 204 and rejects every other request with
  405 and error code 0.
\<close>

theorem gateway_response_codes:
  "action_response e mem db req
     \<in> {successResponse, internalErrorResponse} \<union> errorResponse ` {1..12}
   \<and> errorResponse code = \<lparr>status = 405, body = ErrorBody code\<rparr>
   \<and> successResponse = \<lparr>status = 200, body = SuccessBody\<rparr>
   \<and> internalErrorResponse = \<lparr>status = 500, body = InternalErrorBody\<rparr>
   \<and> (req_method req = OPTIONS \<longrightarrow> loader req = \<lparr>status = 204, body = NoBody\<rparr>)
   \<and> (req_method req \<noteq> OPTIONS \<longrightarrow> loader req = errorResponse 0)
   \<and> (req_method req \<noteq> POST \<longrightarrow> action_response e mem db req = errorResponse 1)
   \<and> (req_method req = POST \<longrightarrow>
        (\<not> checkPow (b64decode e) (sha256 e) (now_pow e) (x_pow req) \<longrightarrow>
           action_response e mem db req = errorResponse 2)
      \<and> (checkPow (b64decode e) (sha256 e) (now_pow e) (x_pow req) \<longrightarrow>
           (body_text req = [] \<longrightarrow> action_response e mem db req = errorResponse 3)
         \<and> (body_text req \<noteq> [] \<longrightarrow>
              (decodeProtectedHeader e (body_text req) = None \<longrightarrow>
                 action_response e mem db req = internalErrorResponse)
            \<and> (decodeProtectedHeader e (body_text req) = Some (k, alg)
                 \<and> alg \<noteq> ''RSA-OAEP-256'' \<longrightarrow>
                 action_response e mem db req = errorResponse 4)
            \<and> (decodeProtectedHeader e (body_text req) = Some (k, ''RSA-OAEP-256'') \<longrightarrow>
                 (snd (getSession (now_session e) mem db) = None \<longrightarrow>
                    action_response e mem db req = errorResponse 5)
               \<and> (snd (getSession (now_session e) mem db) = Some s \<longrightarrow>
                    (snd (getPrivateKey mem db k) = None \<longrightarrow>
                       action_response e mem db req = errorResponse 6)
                  \<and> (snd (getPrivateKey mem db k) = Some ck \<longrightarrow>
                       (compactDecrypt e (body_text req) ck = None \<longrightarrow>
                          action_response e mem db req = internalErrorResponse)
                     \<and> (compactDecrypt e (body_text req) ck = Some pt \<longrightarrow>
                          (JSON_parse e pt = None \<longrightarrow>
                             action_response e mem db req = internalErrorResponse)
                        \<and> (JSON_parse e pt = Some p \<longrightarrow>
                             (check_payload p = None \<longrightarrow>
                                action_response e mem db req = errorResponse 7)
                           \<and> (check_payload p = Some c \<longrightarrow>
  (snd (dedup_transaction db (c_nonce c) (c_orderId c)) \<longrightarrow>
     action_response e mem db req = errorResponse 8)
  \<and> (\<not> snd (dedup_transaction db (c_nonce c) (c_orderId c)) \<longrightarrow>
     (order_lookup e (c_orderId c) 0 = RequestThrows \<longrightarrow>
        action_response e mem db req = errorResponse 11)
   \<and> (order_lookup e (c_orderId c) 0 = OrderAbsent
        \<and> order_lookup e (c_orderId c) 1 = RequestThrows \<longrightarrow>
        action_response e mem db req = errorResponse 11)
   \<and> (order_lookup e (c_orderId c) 0 = OrderAbsent
        \<and> order_lookup e (c_orderId c) 1 = OrderAbsent \<longrightarrow>
        action_response e mem db req = errorResponse 9)
   \<and> (order_lookup e (c_orderId c) 0 = OrderFound t \<and> now_order e - t > 2 * 60000 \<longrightarrow>
        action_response e mem db req = errorResponse 10)
   \<and> (order_lookup e (c_orderId c) 0 = OrderFound t \<and> now_order e - t \<le> 2 * 60000 \<longrightarrow>
        (Date_parse e (c_visitedAt c) = None \<or> Date_parse e (c_conversionedAt c) = None
           \<or> prisma_Int e (c_amount c) = None \<or> create_fails e
           \<or> c_yclid c \<in> set (map yclid (yahooConversion db)) \<longrightarrow>
           action_response e mem db req = errorResponse 12)
      \<and> (Date_parse e (c_visitedAt c) \<noteq> None \<and> Date_parse e (c_conversionedAt c) \<noteq> None
           \<and> prisma_Int e (c_amount c) \<noteq> None \<and> \<not> create_fails e
           \<and> c_yclid c \<notin> set (map yclid (yahooConversion db)) \<longrightarrow>
           action_response e mem db req = successResponse))))))))))))"
proof -
  note r = action_response_range[of e mem db req]
  have b: "errorResponse code = \<lparr>status = 405, body = ErrorBody code\<rparr>"
    "successResponse = \<lparr>status = 200, body = SuccessBody\<rparr>"
    "internalErrorResponse = \<lparr>status = 500, body = InternalErrorBody\<rparr>"
    by (simp_all add: errorResponse_def successResponse_def internalErrorResponse_def)
  have l: "req_method req = OPTIONS \<longrightarrow> loader req = \<lparr>status = 204, body = NoBody\<rparr>"
    "req_method req \<noteq> OPTIONS \<longrightarrow> loader req = errorResponse 0"
    by (simp_all add: loader_def)
  show ?thesis
    apply (intro conjI)
           apply (rule r)
          apply (rule b(1))
         apply (rule b(2))
        apply (rule b(3))
       apply (rule l(1))
      apply (rule l(2))
     apply (blast intro: action_rejects_non_post)
    apply (intro impI conjI; (elim conjE)?;
        ((rule action_rejects_bad_pow action_rejects_empty_body action_rejects_algorithm action_rejects_no_session action_rejects_no_key action_rejects_payload_shape action_500_header action_500_decrypt
            action_500_parse; assumption)
         | (frule (8) action_after_payload_checks[where t = t], blast)))
    done
qed


theorem gateway_response_codes_witness:
  "action_response (demo_env order_known) demo_mem demo_db (demo_request PUT ''A'')
     = errorResponse 1
   \<and> action_response (demo_env order_known) demo_mem demo_db (demo_request POST ''A'')
     = successResponse
   \<and> loader (demo_request OPTIONS []) = \<lparr>status = 204, body = NoBody\<rparr>
   \<and> loader (demo_request GET []) = errorResponse 0"
proof -
  have 1: "action_response (demo_env order_known) demo_mem demo_db (demo_request PUT ''A'')
     = errorResponse 1"
    using gateway_response_codes[where e = "demo_env order_known" and mem = demo_mem
        and db = demo_db and req = "demo_request PUT ''A''"]
    by (simp add: demo_facts)
  have 2: "action_response (demo_env order_known) demo_mem demo_db (demo_request POST ''A'')
     = successResponse"
    using gateway_response_codes[where e = "demo_env order_known" and mem = demo_mem
        and db = demo_db and req = "demo_request POST ''A''" and k = "''k1''"
        and s = demo_session and ck = "CryptoKey ''pem1''" and pt = "''A''"
        and p = "demo_payload ''YSS.1.a'' ''123'' ''n1''" and c = demo_conversion_A
        and t = 1690000046002]
    by (simp add: demo_facts order_known_def)
  have 3: "loader (demo_request OPTIONS []) = \<lparr>status = 204, body = NoBody\<rparr>"
    using gateway_response_codes[where req = "demo_request OPTIONS []"]
    by (simp add: demo_facts)
  have 4: "loader (demo_request GET []) = errorResponse 0"
    using gateway_response_codes[where req = "demo_request GET []"]
    by (simp add: demo_facts)
  from 1 2 3 4 show ?thesis by blast
qed

text \<open>
  C7, counterexample.  A GET request is rejected by \<open>loader\<close> with status 405 and error code
  0, which is not one of the codes 1 to 12.
\<close>

theorem loader_rejects_with_code_zero:
  "status (loader (demo_request GET [])) = 405
   \<and> body (loader (demo_request GET [])) = ErrorBody 0
   \<and> loader (demo_request GET []) \<notin> errorResponse ` {1..12}"
  by (auto simp: loader_def demo_request_def errorResponse_def)


section \<open>Stale proof-of-work tokens\<close>

lemma checkPow_stale:
  assumes "parseInt (hd (split CHR '':'' (dec t))) = Some unixMin"
    and "now - unixMin * 60000 > POW_VALID_MS"
  shows "\<not> checkPow dec sha now (Some t)"
proof -
  from assms(2) have "\<bar>now - unixMin * 60000\<bar> > POW_VALID_MS" by linarith
  with assms(1) show ?thesis by (simp add: checkPow_def Let_def)
qed

text \<open>
  C8 (amended).  A POST request whose token carries a minute timestamp more than
  \<open>POW_VALID_MS\<close> (two minutes) before the server's clock is rejected with error code 2 and
  leaves the server as it was, whatever the digest function: also when the digest of the
  token has ten or more leading zero bits.
\<close>

theorem stale_pow_rejected:
  assumes "req_method req = POST"
    and "x_pow req = Some t"
    and "parseInt (hd (split CHR '':'' (b64decode e t))) = Some unixMin"
    and "now_pow e - unixMin * 60000 > POW_VALID_MS"
  shows "action e mem db req = (mem, db, errorResponse 2)"
proof -
  have "\<not> checkPow (b64decode e) (sha256 e) (now_pow e) (x_pow req)"
    unfolding assms(2) using assms(3,4) by (rule checkPow_stale)
  with assms(1) show ?thesis by (simp add: action_def action_receive_def)
qed

lemma parseInt_stale_minute: "parseInt ''28166657'' = Some 28166657"
  by (simp add: parseInt_def is_ws_def is_digit_def digits_value_def digit_val_def)

lemma stale_request_fields:
  "req_method (stale_request m b) = m"
  "x_pow (stale_request m b) = Some (base64_encode ''28166657:1655353:3'')"
  by (simp_all add: stale_request_def)

lemma stale_token_facts:
  "parseInt (hd (split CHR '':'' (b64decode (demo_env lk) (base64_encode ''28166657:1655353:3''))))
     = Some 28166657"
  "now_pow (demo_env lk) - 28166657 * 60000 > POW_VALID_MS"
  "checkPow_zeros 0 (sha256 (demo_env lk) ''28166657:1655353:3'') \<ge> POW_BITS"
  by (simp_all add: demo_env_def base64_round_trip parseInt_stale_minute
      POW_VALID_MS_def toy_digest_def clz32_def bit_length.simps POW_BITS_def)

theorem stale_pow_rejected_witness:
  "req_method (stale_request POST ''A'') = POST
   \<and> x_pow (stale_request POST ''A'') = Some (base64_encode ''28166657:1655353:3'')
   \<and> parseInt (hd (split CHR '':''
         (b64decode (demo_env order_known) (base64_encode ''28166657:1655353:3''))))
       = Some 28166657
   \<and> now_pow (demo_env order_known) - 28166657 * 60000 > POW_VALID_MS
   \<and> checkPow_zeros 0 (sha256 (demo_env order_known) ''28166657:1655353:3'') \<ge> POW_BITS
   \<and> action (demo_env order_known) demo_mem demo_db (stale_request POST ''A'')
       = (demo_mem, demo_db, errorResponse 2)"
proof -
  note r = stale_request_fields[of POST "''A''"]
  note t = stale_token_facts[of order_known]
  from stale_pow_rejected[OF r(1) r(2) t(1) t(2)]
  have "action (demo_env order_known) demo_mem demo_db (stale_request POST ''A'')
       = (demo_mem, demo_db, errorResponse 2)" .
  with r t show ?thesis by blast
qed

text \<open>
  C8, counterexample.  A PUT request with the same stale token is rejected by the method
  check, with error code 1 and not with the proof-of-work code 2.
\<close>

theorem stale_pow_non_post_code_1:
  "x_pow (stale_request PUT ''A'') = Some (base64_encode ''28166657:1655353:3'')
   \<and> parseInt (hd (split CHR '':''
         (b64decode (demo_env order_known) (base64_encode ''28166657:1655353:3''))))
       = Some 28166657
   \<and> now_pow (demo_env order_known) - 28166657 * 60000 > POW_VALID_MS
   \<and> action_response (demo_env order_known) demo_mem demo_db (stale_request PUT ''A'')
       = errorResponse 1
   \<and> errorResponse 1 \<noteq> errorResponse 2"
  using stale_request_fields[of PUT "''A''"] stale_token_facts[of order_known]
  by (simp add: action_rejects_non_post errorResponse_def)

section \<open>The order lookup and its retry\<close>

text \<open>Whenever the first lookup has no order, the request is rejected: the answer of the
  retry can only choose between the codes 9 and 11.\<close>

lemma first_lookup_absent_rejects:
  assumes "order_lookup e oid 0 = OrderAbsent"
  shows "action_verify_order e oid = Some (errorResponse 9)
       \<or> action_verify_order e oid = Some (errorResponse 11)"
  using assms by (simp add: action_verify_order_def split: order_response.splits)

text \<open>
  C3 (the code at the failing input).  Order 123 is missing at the first lookup and found at
  the retry, created 5 seconds before the freshness test.  The request passes every earlier
  check, and \<open>action\<close> answers 405 with error code 11 and stores no conversion.
\<close>

theorem order_found_on_retry_is_rejected:
  "order_known_late ''123'' 0 = OrderAbsent
   \<and> order_known_late ''123'' 1 = OrderFound 1690000046002
   \<and> now_order (demo_env order_known_late) - 1690000046002 = 5000
   \<and> action_receive (demo_env order_known_late) demo_mem demo_db (demo_request POST ''A'')
       = (\<lparr>sessionCache = Some (demo_session, 1690000350001),
            privateKeyCache = (\<lambda>_. None)(''k1'' \<mapsto> CryptoKey ''pem1'')\<rparr>,
          demo_db\<lparr>pixelNonce := [''n1'']\<rparr>, Inr demo_conversion_A)
   \<and> action_response (demo_env order_known_late) demo_mem demo_db (demo_request POST ''A'')
       = errorResponse 11
   \<and> yahooConversion (fst (snd (action (demo_env order_known_late) demo_mem demo_db
         (demo_request POST ''A'')))) = []"
  unfolding action_response_def action_def demo_receive_A
  by (simp add: demo_defs demo_conversion_A_def)

section \<open>Two requests for one order\<close>

text \<open>Handled alone, \<open>action\<close> keeps the order ids of the stored conversions distinct.\<close>

lemma action_receive_keeps_conversions:
  assumes "action_receive e mem db req = (m, d, x)"
  shows "yahooConversion d = yahooConversion db"
  using assms
  by (auto simp: action_receive_def dedup_transaction_def Let_def
      split: if_splits option.splits prod.splits)

lemma action_receive_passes_new_orders:
  assumes "action_receive e mem db req = (m, d, Inr c)"
  shows "c_orderId c \<notin> orderId ` set (yahooConversion db)"
  using assms
  by (auto simp: action_receive_def dedup_transaction_def Let_def find_None_iff
      split: if_splits option.splits prod.splits)

lemma action_persist_order_ids:
  "map orderId (yahooConversion (fst (action_persist e d c))) = map orderId (yahooConversion d)
   \<or> map orderId (yahooConversion (fst (action_persist e d c)))
       = map orderId (yahooConversion d) @ [c_orderId c]"
  by (auto simp: action_persist_def split: option.splits)

lemma action_alone_keeps_order_ids_distinct:
  assumes "distinct (map orderId (yahooConversion db))"
  shows "distinct (map orderId (yahooConversion (fst (snd (action e mem db req)))))"
proof -
  obtain m d x where rc: "action_receive e mem db req = (m, d, x)"
    by (cases "action_receive e mem db req") auto
  note same = action_receive_keeps_conversions[OF rc]
  show ?thesis
  proof (cases x)
    case (Inl r)
    with rc same assms show ?thesis by (simp add: action_def)
  next
    case (Inr c)
    with rc have new: "c_orderId c \<notin> orderId ` set (yahooConversion db)"
      using action_receive_passes_new_orders by blast
    show ?thesis
    proof (cases "action_verify_order e (c_orderId c)")
      case (Some r)
      with rc Inr same assms show ?thesis by (simp add: action_def)
    next
      case None
      with rc Inr have "fst (snd (action e mem db req)) = fst (action_persist e d c)"
        by (simp add: action_def split: prod.splits)
      with action_persist_order_ids[of e d c] same new assms show ?thesis by auto
    qed
  qed
qed

text \<open>
  C1 (the code at the failing input).  Requests \<open>A\<close> and \<open>B\<close> carry the same order id 123,
  different nonces and different click ids.  When both run their duplicate transaction
  before either inserts (schedule 0, 1, 0, 1, 0, 1), both are answered 200 and two
  conversions of order 123 are stored.  Handled one after the other (schedule
  0, 0, 0, 1, 1, 1), the second is rejected with code 8 and one conversion is stored.
  Requests \<open>A\<close> and \<open>C\<close> differ in the nonce only, as two attempts of one client do: under
  the first schedule the second insertion fails on the click id and is answered with the
  insertion code 12, not with the duplicate code 8.
\<close>

theorem duplicate_order_race:
  "map task_response (snd (run [0, 1, 0, 1, 0, 1] race_start))
     = [Some successResponse, Some successResponse]
   \<and> map orderId (yahooConversion (srv_db (fst (run [0, 1, 0, 1, 0, 1] race_start))))
     = [''123'', ''123'']
   \<and> map task_response (snd (run [0, 0, 0, 1, 1, 1] race_start))
     = [Some successResponse, Some (errorResponse 8)]
   \<and> map orderId (yahooConversion (srv_db (fst (run [0, 0, 0, 1, 1, 1] race_start))))
     = [''123'']
   \<and> map task_response (snd (run [0, 1, 0, 1, 0, 1] retry_start))
     = [Some successResponse, Some (errorResponse 12)]
   \<and> map orderId (yahooConversion (srv_db (fst (run [0, 1, 0, 1, 0, 1] retry_start))))
     = [''123'']"
  by (simp add: race_start_def retry_start_def step_def action_receive_def demo_checkPow
      demo_defs Let_def)

section \<open>Key rotation: retention and lookup\<close>

lemma newest_subset: "set (apiKeyPair_newest n rows) \<subseteq> set rows"
  using set_take_subset[of n "sort_key (\<lambda>r. - createdAt r) rows"]
  by (simp add: apiKeyPair_newest_def)

lemma newest_length: "length (apiKeyPair_newest n rows) \<le> n"
  by (simp add: apiKeyPair_newest_def)

lemma newest_are_newest:
  assumes x: "x \<in> set (apiKeyPair_newest n rows)"
    and y: "y \<in> set rows" "y \<notin> set (apiKeyPair_newest n rows)"
  shows "createdAt y \<le> createdAt x"
proof -
  let ?f = "\<lambda>r. - createdAt r"
  let ?s = "sort_key ?f rows"
  have "sorted (map ?f (take n ?s @ drop n ?s))" by simp
  then have le: "\<forall>a \<in> set (take n ?s). \<forall>b \<in> set (drop n ?s). ?f a \<le> ?f b"
    unfolding map_append sorted_append by auto
  have "y \<in> set (take n ?s @ drop n ?s)" using y(1) by simp
  with y(2) have "y \<in> set (drop n ?s)"
    unfolding apiKeyPair_newest_def set_append by blast
  with x le have "?f x \<le> ?f y" by (simp add: apiKeyPair_newest_def)
  then show ?thesis by simp
qed

lemma distinct_kid_rows: "distinct (map kid rows) \<Longrightarrow> distinct rows"
  by (rule distinct_map[THEN iffD1, THEN conjunct1])

lemma same_kid_same_row:
  assumes "distinct (map kid rows)" "r \<in> set rows" "t \<in> set rows" "kid r = kid t"
  shows "r = t"
  using assms by (meson distinct_map inj_on_def)

lemma purge_keeps_newest:
  assumes "distinct (map kid rows)"
  shows "set (apiKeyPair_deleteMany_notIn (map kid (apiKeyPair_newest n rows)) rows)
           = set (apiKeyPair_newest n rows)"
proof (intro set_eqI iffI)
  fix r assume "r \<in> set (apiKeyPair_deleteMany_notIn (map kid (apiKeyPair_newest n rows)) rows)"
  then obtain t where r: "r \<in> set rows" and t: "t \<in> set (apiKeyPair_newest n rows)"
    and k: "kid r = kid t"
    by (auto simp: apiKeyPair_deleteMany_notIn_def)
  from t newest_subset have "t \<in> set rows" by blast
  with same_kid_same_row[OF assms r _ k] have "r = t" by blast
  with t show "r \<in> set (apiKeyPair_newest n rows)" by simp
next
  fix r assume "r \<in> set (apiKeyPair_newest n rows)"
  with newest_subset show "r \<in> set (apiKeyPair_deleteMany_notIn (map kid (apiKeyPair_newest n rows)) rows)"
    by (auto simp: apiKeyPair_deleteMany_notIn_def)
qed

lemma purge_distinct:
  "distinct (map kid rows) \<Longrightarrow> distinct (map kid (apiKeyPair_deleteMany_notIn kids rows))"
  by (simp add: apiKeyPair_deleteMany_notIn_def distinct_map_filter)

lemma purge_length:
  assumes "distinct (map kid rows)"
  shows "length (apiKeyPair_deleteMany_notIn (map kid (apiKeyPair_newest n rows)) rows) \<le> n"
proof -
  let ?p = "apiKeyPair_deleteMany_notIn (map kid (apiKeyPair_newest n rows)) rows"
  have "distinct ?p" using purge_distinct[OF assms] by (rule distinct_kid_rows)
  then have "length ?p = card (set ?p)" by (simp add: distinct_card)
  also have "\<dots> = card (set (apiKeyPair_newest n rows))" by (simp add: purge_keeps_newest[OF assms])
  also have "\<dots> \<le> length (apiKeyPair_newest n rows)" by (rule card_length)
  also have "\<dots> \<le> n" by (rule newest_length)
  finally show ?thesis .
qed

lemma find_by_kid:
  assumes "distinct (map kid rows)" "r \<in> set rows"
  shows "find (\<lambda>x. kid x = kid r) rows = Some r"
  using assms by (induction rows) (auto simp: rev_image_eqI)

lemma getPrivateKey_resolves:
  assumes d: "distinct (map kid (apiKeyPair db))" and r: "r \<in> set (apiKeyPair db)"
    and c: "cache_agrees m db"
  shows "snd (getPrivateKey m db (kid r)) = Some (importPKCS8 (privateKey r))"
proof -
  from c r have "privateKeyCache m (kid r) = None
      \<or> privateKeyCache m (kid r) = Some (importPKCS8 (privateKey r))"
    by (simp add: cache_agrees_def list_all_iff)
  moreover have "apiKeyPair_findUnique db (kid r) = Some r"
    unfolding apiKeyPair_findUnique_def by (rule find_by_kid[OF d r])
  ultimately show ?thesis by (auto simp: getPrivateKey_def Let_def)
qed

text \<open>What a successful rotation leaves in the table: the newest three of the old rows and
  the new row.\<close>

lemma rotation_success_table:
  assumes "generatePublicKey e db = (db', True)"
  shows "new_kid e \<notin> set (map kid (apiKeyPair db))
       \<and> apiKeyPair db' =
           apiKeyPair_deleteMany_notIn
             (map kid (apiKeyPair_newest 3
                (apiKeyPair db @ [\<lparr>kid = new_kid e, publicKey = new_publicKey e,
                                   privateKey = new_privateKey e, createdAt = rotation_now e\<rparr>])))
             (apiKeyPair db @ [\<lparr>kid = new_kid e, publicKey = new_publicKey e,
                                privateKey = new_privateKey e, createdAt = rotation_now e\<rparr>])"
  using assms
  by (auto simp: generatePublicKey_def Let_def
      split: if_splits option.splits pixel_query_result.splits pixel_update_result.splits)

text \<open>The purge leaves exactly as many rows as \<open>findMany\<close> selected.\<close>

lemma newest_distinct: "distinct rows \<Longrightarrow> distinct (apiKeyPair_newest n rows)"
  by (simp add: apiKeyPair_newest_def)

lemma card_ge_nonempty: "n \<le> card A \<Longrightarrow> 0 < n \<Longrightarrow> A \<noteq> {}"
  by auto

lemma purge_length_exact:
  assumes "distinct (map kid rows)"
  shows "length (apiKeyPair_deleteMany_notIn (map kid (apiKeyPair_newest n rows)) rows)
           = min n (length rows)"
proof -
  let ?p = "apiKeyPair_deleteMany_notIn (map kid (apiKeyPair_newest n rows)) rows"
  have dr: "distinct rows" using assms by (rule distinct_kid_rows)
  have "distinct ?p" using purge_distinct[OF assms] by (rule distinct_kid_rows)
  then have "length ?p = card (set ?p)" by (simp add: distinct_card)
  also have "\<dots> = card (set (apiKeyPair_newest n rows))" by (simp add: purge_keeps_newest[OF assms])
  also have "\<dots> = length (apiKeyPair_newest n rows)"
    using newest_distinct[OF dr] by (simp add: distinct_card)
  also have "\<dots> = min n (length rows)" by (simp add: apiKeyPair_newest_def min.commute)
  finally show ?thesis .
qed

text \<open>
  C6 (amended).  After a successful rotation the table holds three key pairs (all of them
  when the old table and the new pair are fewer): rows of the old table or the new row, no
  dropped row newer than a kept one.  The newest row of the old table is kept.  The new row
  is kept when its creation time is later than that of every old row.  \<open>getPrivateKey\<close>
  resolves the key id of every kept row to that row's private key, from any cache that
  agrees with the table.  The key ids of the table are distinct (\<open>kid\<close> is its primary key).
\<close>

theorem rotation_retains_newest_three:
  assumes pk: "distinct (map kid (apiKeyPair db))"
    and ok: "generatePublicKey e db = (db', True)"
  shows "length (apiKeyPair db') = min 3 (length (apiKeyPair db) + 1)
       \<and> set (apiKeyPair db') \<subseteq> set (apiKeyPair db) \<union>
            {\<lparr>kid = new_kid e, publicKey = new_publicKey e, privateKey = new_privateKey e,
              createdAt = rotation_now e\<rparr>}
       \<and> (\<forall>kept \<in> set (apiKeyPair db').
            \<forall>dropped \<in> (set (apiKeyPair db) \<union>
                {\<lparr>kid = new_kid e, publicKey = new_publicKey e,
                  privateKey = new_privateKey e, createdAt = rotation_now e\<rparr>})
                - set (apiKeyPair db').
              createdAt dropped \<le> createdAt kept)
       \<and> (\<forall>r \<in> set (apiKeyPair db).
            (\<forall>x \<in> set (apiKeyPair db). x \<noteq> r \<longrightarrow> createdAt x < createdAt r) \<longrightarrow>
            r \<in> set (apiKeyPair db'))
       \<and> ((\<forall>x \<in> set (apiKeyPair db). createdAt x < rotation_now e) \<longrightarrow>
            \<lparr>kid = new_kid e, publicKey = new_publicKey e, privateKey = new_privateKey e,
              createdAt = rotation_now e\<rparr> \<in> set (apiKeyPair db'))
       \<and> (\<forall>r \<in> set (apiKeyPair db'). \<forall>m. cache_agrees m db' \<longrightarrow>
            snd (getPrivateKey m db' (kid r)) = Some (importPKCS8 (privateKey r)))"
proof -
  let ?new = "\<lparr>kid = new_kid e, publicKey = new_publicKey e, privateKey = new_privateKey e,
               createdAt = rotation_now e\<rparr>"
  let ?rows = "apiKeyPair db @ [?new]"
  let ?K = "set (apiKeyPair db')"
  from rotation_success_table[OF ok]
  have fresh: "new_kid e \<notin> set (map kid (apiKeyPair db))"
    and tab: "apiKeyPair db' = apiKeyPair_deleteMany_notIn (map kid (apiKeyPair_newest 3 ?rows)) ?rows"
    by simp_all
  from pk fresh have d: "distinct (map kid ?rows)" by simp
  have drows: "distinct ?rows" using d by (rule distinct_kid_rows)
  have kept: "?K = set (apiKeyPair_newest 3 ?rows)"
    unfolding tab by (rule purge_keeps_newest[OF d])
  have 1: "length (apiKeyPair db') = min 3 (length (apiKeyPair db) + 1)"
    unfolding tab using purge_length_exact[OF d, of 3] by simp
  have 2: "?K \<subseteq> set (apiKeyPair db) \<union> {?new}"
    unfolding kept using newest_subset[of 3 ?rows] by auto
  have 3: "\<forall>kept \<in> ?K. \<forall>dropped \<in> (set (apiKeyPair db) \<union> {?new}) - ?K.
              createdAt dropped \<le> createdAt kept"
  proof (intro ballI)
    fix x y assume "x \<in> ?K" and "y \<in> (set (apiKeyPair db) \<union> {?new}) - ?K"
    then have "x \<in> set (apiKeyPair_newest 3 ?rows)" "y \<in> set ?rows"
      "y \<notin> set (apiKeyPair_newest 3 ?rows)"
      unfolding kept by auto
    then show "createdAt y \<le> createdAt x" by (rule newest_are_newest)
  qed
  have d': "distinct (map kid (apiKeyPair db'))" unfolding tab by (rule purge_distinct[OF d])
  then have dK: "distinct (apiKeyPair db')" by (rule distinct_kid_rows)
  have cardK: "card ?K = min 3 (length (apiKeyPair db) + 1)"
    using 1 dK by (simp add: distinct_card)
  have 4: "\<forall>r \<in> set (apiKeyPair db).
            (\<forall>x \<in> set (apiKeyPair db). x \<noteq> r \<longrightarrow> createdAt x < createdAt r) \<longrightarrow> r \<in> ?K"
  proof (intro ballI impI)
    fix r assume r: "r \<in> set (apiKeyPair db)"
      and newest: "\<forall>x \<in> set (apiKeyPair db). x \<noteq> r \<longrightarrow> createdAt x < createdAt r"
    show "r \<in> ?K"
    proof (rule ccontr)
      assume out: "r \<notin> ?K"
      have "card (set ?rows) = length (apiKeyPair db) + 1"
        using drows by (simp add: distinct_card del: set_append)
      moreover have "?K \<noteq> set ?rows" using out r by auto
      moreover have "?K \<subseteq> set ?rows" using 2 by auto
      ultimately have "card ?K < length (apiKeyPair db) + 1"
        by (metis List.finite_set psubsetI psubset_card_mono)
      with cardK have "card ?K = 3" by simp
      then have "card (?K - {?new}) \<ge> 2" by (simp add: card_Diff_singleton_if)
      then have "?K - {?new} \<noteq> {}" by (rule card_ge_nonempty) simp
      then obtain x where x: "x \<in> ?K" "x \<noteq> ?new" by blast
      with 2 have xo: "x \<in> set (apiKeyPair db)" by auto
      from x out have "x \<noteq> r" by auto
      with newest xo have "createdAt x < createdAt r" by simp
      moreover from 3 x(1) r out have "createdAt r \<le> createdAt x" by auto
      ultimately show False by simp
    qed
  qed
  have 5: "(\<forall>x \<in> set (apiKeyPair db). createdAt x < rotation_now e) \<longrightarrow> ?new \<in> ?K"
  proof (intro impI, rule ccontr)
    assume later: "\<forall>x \<in> set (apiKeyPair db). createdAt x < rotation_now e" and out: "?new \<notin> ?K"
    from cardK have "card ?K \<ge> 1" by simp
    then have "?K \<noteq> {}" by (rule card_ge_nonempty) simp
    then obtain x where x: "x \<in> ?K" by (meson ex_in_conv)
    with out 2 have xo: "x \<in> set (apiKeyPair db)" by auto
    have mem: "?new \<in> (set (apiKeyPair db) \<union> {?new}) - ?K" using out by simp
    from 3[rule_format, OF x mem] have "rotation_now e \<le> createdAt x" by simp
    moreover from later xo have "createdAt x < rotation_now e" by simp
    ultimately show False by simp
  qed
  have 6: "\<forall>r \<in> ?K. \<forall>m. cache_agrees m db' \<longrightarrow>
            snd (getPrivateKey m db' (kid r)) = Some (importPKCS8 (privateKey r))"
    using getPrivateKey_resolves[OF d'] by blast
  from 1 2 3 4 5 6 show ?thesis by blast
qed

section \<open>Key rotation: concrete runs and the rollback\<close>

lemmas rotation_defs = generatePublicKey_def demo_rotation_def demo_key_db_def demo_keys_def
  demo_db_def apiKeyPair_newest_def apiKeyPair_deleteMany_notIn_def apiKeyPair_delete_def
  session_findFirst_def demo_session_def demo_key_def

lemma demo_rotation_success:
  "generatePublicKey (demo_rotation (PixelQueryId (Some ''px'')) (PixelUpdateUserErrors (Some [])))
     demo_key_db
   = (demo_key_db\<lparr>apiKeyPair :=
        [\<lparr>kid = ''k3'', publicKey = ''jwk3'', privateKey = ''pem3'', createdAt = 1690001200000\<rparr>,
         \<lparr>kid = ''k4'', publicKey = ''jwk4'', privateKey = ''pem4'', createdAt = 1690001800000\<rparr>,
         \<lparr>kid = ''k5'', publicKey = ''jwk5'', privateKey = ''pem5'', createdAt = 1690002400000\<rparr>]\<rparr>,
      True)"
  by (simp add: rotation_defs Let_def)

theorem rotation_retains_newest_three_witness:
  "distinct (map kid (apiKeyPair demo_key_db))
   \<and> list_all (\<lambda>x. createdAt x < rotation_now
          (demo_rotation (PixelQueryId (Some ''px'')) (PixelUpdateUserErrors (Some []))))
        (apiKeyPair demo_key_db)
   \<and> snd (generatePublicKey
        (demo_rotation (PixelQueryId (Some ''px'')) (PixelUpdateUserErrors (Some []))) demo_key_db)
   \<and> length (apiKeyPair (fst (generatePublicKey
        (demo_rotation (PixelQueryId (Some ''px'')) (PixelUpdateUserErrors (Some []))) demo_key_db)))
      = 3
   \<and> snd (getPrivateKey demo_mem (fst (generatePublicKey
        (demo_rotation (PixelQueryId (Some ''px'')) (PixelUpdateUserErrors (Some []))) demo_key_db))
        ''k5'') = Some (CryptoKey ''pem5'')
   \<and> snd (getPrivateKey demo_mem (fst (generatePublicKey
        (demo_rotation (PixelQueryId (Some ''px'')) (PixelUpdateUserErrors (Some []))) demo_key_db))
        ''k4'') = Some (CryptoKey ''pem4'')"
proof -
  let ?e = "demo_rotation (PixelQueryId (Some ''px'')) (PixelUpdateUserErrors (Some []))"
  let ?k4 = "\<lparr>kid = ''k4'', publicKey = ''jwk4'', privateKey = ''pem4'',
               createdAt = 1690001800000\<rparr>"
  let ?new = "\<lparr>kid = new_kid ?e, publicKey = new_publicKey ?e, privateKey = new_privateKey ?e,
               createdAt = rotation_now ?e\<rparr>"
  obtain db' where ok: "generatePublicKey ?e demo_key_db = (db', True)"
    using demo_rotation_success by simp
  have pk: "distinct (map kid (apiKeyPair demo_key_db))"
    by (simp add: demo_key_db_def demo_keys_def)
  have later: "\<forall>x \<in> set (apiKeyPair demo_key_db). createdAt x < rotation_now ?e"
    by (simp add: demo_key_db_def demo_keys_def demo_rotation_def)
  have k4: "?k4 \<in> set (apiKeyPair demo_key_db)"
    by (simp add: demo_key_db_def demo_keys_def)
  have k4_newest: "\<forall>x \<in> set (apiKeyPair demo_key_db). x \<noteq> ?k4 \<longrightarrow> createdAt x < createdAt ?k4"
    by (simp add: demo_key_db_def demo_keys_def)
  note kept = rotation_retains_newest_three[OF pk ok]
  from kept have len: "length (apiKeyPair db') = min 3 (length (apiKeyPair demo_key_db) + 1)"
    by (rule conjunct1)
  from kept later have new_in: "?new \<in> set (apiKeyPair db')" by blast
  from kept k4 k4_newest have k4_in: "?k4 \<in> set (apiKeyPair db')" by blast
  from kept have resolves: "\<forall>r \<in> set (apiKeyPair db'). \<forall>m. cache_agrees m db' \<longrightarrow>
      snd (getPrivateKey m db' (kid r)) = Some (importPKCS8 (privateKey r))"
    by blast
  have subset: "set (apiKeyPair db') \<subseteq> set (apiKeyPair demo_key_db) \<union> {?new}"
    using kept by blast
  have agrees: "cache_agrees demo_mem db'"
    by (simp add: cache_agrees_def demo_mem_def list_all_iff)
  from resolves new_in agrees
  have "snd (getPrivateKey demo_mem db' (kid ?new)) = Some (importPKCS8 (privateKey ?new))"
    by blast
  then have r5: "snd (getPrivateKey demo_mem db' ''k5'') = Some (CryptoKey ''pem5'')"
    by (simp add: importPKCS8_def demo_rotation_def)
  from resolves k4_in agrees
  have "snd (getPrivateKey demo_mem db' (kid ?k4)) = Some (importPKCS8 (privateKey ?k4))"
    by blast
  then have r4: "snd (getPrivateKey demo_mem db' ''k4'') = Some (CryptoKey ''pem4'')"
    by (simp add: importPKCS8_def)
  from len have l3: "length (apiKeyPair db') = 3"
    by (simp add: demo_key_db_def demo_keys_def)
  from later have la: "list_all (\<lambda>x. createdAt x < rotation_now ?e) (apiKeyPair demo_key_db)"
    by (simp only: list_all_iff)
  from pk la ok l3 r5 r4 show ?thesis by simp
qed

text \<open>
  C6, counterexample.  The clock was set back between two rotations: the table holds
  \<open>k2\<close>, \<open>k3\<close>, \<open>k4\<close>, and the rotation stamps the new pair \<open>k5\<close> earlier than all three.  The
  rotation succeeds, the pixel now encrypts to \<open>k5\<close>, and the purge deletes \<open>k5\<close>:
  \<open>getPrivateKey\<close> does not resolve the key of the most recent rotation.
\<close>

theorem rotation_purges_new_key_on_clock_step_back:
  "snd (generatePublicKey demo_rotation_clock_back demo_key_db)
   \<and> map kid (apiKeyPair (fst (generatePublicKey demo_rotation_clock_back demo_key_db)))
      = [''k2'', ''k3'', ''k4'']
   \<and> snd (getPrivateKey demo_mem
        (fst (generatePublicKey demo_rotation_clock_back demo_key_db)) ''k5'') = None"
  by (simp add: rotation_defs demo_rotation_clock_back_def Let_def getPrivateKey_def
      apiKeyPair_findUnique_def demo_mem_def)

lemma getPrivateKey_keeps_agreement:
  assumes d: "distinct (map kid (apiKeyPair db))" and c: "cache_agrees m db"
  shows "cache_agrees (fst (getPrivateKey m db k)) db"
proof (cases "privateKeyCache m k")
  case (Some hit)
  with c show ?thesis by (simp add: getPrivateKey_def)
next
  case None
  show ?thesis
  proof (cases "apiKeyPair_findUnique db k")
    case n: None
    with None c show ?thesis by (simp add: getPrivateKey_def)
  next
    case (Some rec)
    then have rec: "rec \<in> set (apiKeyPair db)" "kid rec = k"
      by (auto simp: apiKeyPair_findUnique_def find_Some_iff)
    have "\<And>r. r \<in> set (apiKeyPair db) \<Longrightarrow> kid r = k \<Longrightarrow> r = rec"
      using same_kid_same_row[OF d _ rec(1)] rec(2) by simp
    with None Some show ?thesis
      by (auto simp: getPrivateKey_def cache_agrees_def list_all_iff Let_def)
  qed
qed

lemma rotation_table_subset:
  "set (apiKeyPair (fst (generatePublicKey e db)))
     \<subseteq> set (apiKeyPair db) \<union>
        {\<lparr>kid = new_kid e, publicKey = new_publicKey e, privateKey = new_privateKey e,
          createdAt = rotation_now e\<rparr>}"
  by (auto simp: generatePublicKey_def Let_def apiKeyPair_deleteMany_notIn_def
      apiKeyPair_delete_def
      split: option.splits pixel_query_result.splits pixel_update_result.splits)

text \<open>A rotation keeps the cache in agreement with the table, as long as the new key id is
  not cached already.\<close>

lemma rotation_keeps_agreement:
  assumes "cache_agrees m db" "privateKeyCache m (new_kid e) = None"
  shows "cache_agrees m (fst (generatePublicKey e db))"
  using assms rotation_table_subset[of e db]
  by (auto simp: cache_agrees_def list_all_iff)

text \<open>The rollback that the code has: when the update reports user errors, the new key pair
  is deleted and the run returns \<open>false\<close>.\<close>

lemma rotation_user_errors_roll_back:
  assumes "pixel_update e = PixelUpdateUserErrors (Some errs)" "errs \<noteq> []"
    "generatePublicKey e db = (db', ok)"
    "new_kid e \<notin> set (map kid (apiKeyPair db))"
    "session db \<noteq> []" "pixel_query e = PixelQueryId (Some pid)"
  shows "\<not> ok \<and> new_kid e \<notin> set (map kid (apiKeyPair db'))"
  using assms
  by (auto simp: generatePublicKey_def Let_def session_findFirst_def apiKeyPair_delete_def
      split: list.splits)

text \<open>
  C5 (the code at the failing inputs).  The table holds the keys k2, k3, k4 and the run
  creates k5.  When the update call throws, and when no Web Pixel is found, the run returns
  \<open>false\<close> and k5 stays in the table.  When the update answers without \<open>data\<close> (top-level
  errors only), the run returns \<open>true\<close> and k5 stays.  Only when the update reports
  \<open>userErrors\<close> is k5 deleted.
\<close>

theorem rotation_failure_leaves_new_key:
  "map kid (apiKeyPair (fst (generatePublicKey
       (demo_rotation (PixelQueryId (Some ''px'')) PixelUpdateThrows) demo_key_db)))
     = [''k3'', ''k4'', ''k5'']
   \<and> snd (generatePublicKey
       (demo_rotation (PixelQueryId (Some ''px'')) PixelUpdateThrows) demo_key_db) = False
   \<and> map kid (apiKeyPair (fst (generatePublicKey
       (demo_rotation (PixelQueryId None) PixelUpdateThrows) demo_key_db)))
     = [''k3'', ''k4'', ''k5'']
   \<and> snd (generatePublicKey
       (demo_rotation (PixelQueryId None) PixelUpdateThrows) demo_key_db) = False
   \<and> map kid (apiKeyPair (fst (generatePublicKey
       (demo_rotation (PixelQueryId (Some ''px'')) (PixelUpdateUserErrors None)) demo_key_db)))
     = [''k3'', ''k4'', ''k5'']
   \<and> snd (generatePublicKey
       (demo_rotation (PixelQueryId (Some ''px'')) (PixelUpdateUserErrors None)) demo_key_db) = True
   \<and> map kid (apiKeyPair (fst (generatePublicKey
       (demo_rotation (PixelQueryId (Some ''px'')) (PixelUpdateUserErrors (Some [''invalid''])))
       demo_key_db)))
     = [''k3'', ''k4'']
   \<and> snd (generatePublicKey
       (demo_rotation (PixelQueryId (Some ''px'')) (PixelUpdateUserErrors (Some [''invalid''])))
       demo_key_db) = False"
  by (simp add: rotation_defs Let_def)


section \<open>The exporter: marking and the Authorization header\<close>

lemmas export_defs = createCsvAndImportToYahoo_def demo_export_env_def demo_export_db_def
  demo_db_def demo_application_def demo_account_def demo_conversions_def getYahooAdAccounts_def
  getYahooAdToken_def application_update_where_def eligible_def startsWith_def fold_case_def YCLID_PREFIX_def
  mark_processed_def js_string_def

text \<open>One account with a non-empty batch: the batch is marked exactly when the response is OK
  and its body could be read; the errors listed in a JSON body play no part.\<close>

lemma export_one_account:
  assumes "accountId acct \<noteq> []" "childAccountId acct \<noteq> []" "conversionTitle acct \<noteq> []"
    and "records = filter (eligible (account_type acct) (export_now e i) (duration acct))
                     (yahooConversion d)"
    and "records \<noteq> []"
    and "req = \<lparr>up_endpoint = account_type acct, up_accountId = childAccountId acct,
                 up_base_account_id = accountId acct,
                 up_authorization = ''Bearer '' @ js_string (app_accessToken app),
                 up_records = records\<rparr>"
  shows "export_accounts e app i [acct] d sent =
           (case upload_answer e req of
              FetchThrows \<Rightarrow> (d, sent @ [req])
            | FetchResponse ok content \<Rightarrow>
                if ok \<and> content \<noteq> JsonInvalid
                then (mark_processed (map yclid records) d, sent @ [req])
                else (d, sent @ [req]))"
  using assms by (auto simp: Let_def split: upload_response.splits)

lemma export_accounts_authorization:
  assumes "list_all (\<lambda>r. up_authorization r = X) sent"
    and X: "''Bearer '' @ js_string (app_accessToken app) = X"
  shows "list_all (\<lambda>r. up_authorization r = X) (snd (export_accounts e app i accts d sent))"
  using assms(1)
proof (induction accts arbitrary: i d sent)
  case Nil
  then show ?case by simp
next
  case (Cons acct rest)
  have step: "list_all (\<lambda>r. up_authorization r = X)
                (snd (export_accounts e app (Suc i) rest d' (sent @ [req])))"
    if "up_authorization req = X" for d' req
    using that Cons.prems by (intro Cons.IH) simp
  have skip: "list_all (\<lambda>r. up_authorization r = X)
                (snd (export_accounts e app (Suc i) rest d sent))"
    using Cons.prems by (rule Cons.IH)
  show ?case
    using skip X by (simp add: Let_def step split: upload_response.splits)
qed

text \<open>Every upload of a run carries the access token of the application row as it was loaded
  at the start of the run, before the refresh.\<close>

lemma upload_carries_loaded_token:
  assumes "loaded_application e = Some app"
  shows "list_all (\<lambda>r. up_authorization r = ''Bearer '' @ js_string (app_accessToken app))
           (snd (createCsvAndImportToYahoo e d))"
proof -
  have "list_all (\<lambda>r. up_authorization r = ''Bearer '' @ js_string (app_accessToken app))
          (snd (export_accounts e app 0 accts d' []))" for accts d'
    by (rule export_accounts_authorization) simp_all
  with assms show ?thesis
    by (simp add: createCsvAndImportToYahoo_def Let_def split: option.splits prod.splits)
qed

text \<open>
  C4 (the code at the failing input).  The upload answers 200 with a JSON body that lists an
  error.  Both records of the batch are marked processed.  With a non-OK status, and when
  \<open>fetch\<close> throws, neither is marked.
\<close>

theorem export_marks_batch_despite_api_errors:
  "map isProcessed (yahooConversion (fst (createCsvAndImportToYahoo
       (demo_export_env (FetchResponse True (JsonBody (Some [''E0001'']))))
       demo_export_db))) = [True, True]
   \<and> map up_records (snd (createCsvAndImportToYahoo
       (demo_export_env (FetchResponse True (JsonBody (Some [''E0001'']))))
       demo_export_db)) = [demo_conversions]
   \<and> map isProcessed (yahooConversion (fst (createCsvAndImportToYahoo
       (demo_export_env (FetchResponse False (JsonBody (Some [''E0001'']))))
       demo_export_db))) = [False, False]
   \<and> map isProcessed (yahooConversion (fst (createCsvAndImportToYahoo
       (demo_export_env FetchThrows) demo_export_db))) = [False, False]"
  by (simp add: export_defs Let_def)

text \<open>
  C9 (the code at the failing input).  The stored access token is \<open>old-token\<close> and the
  refresh at the start of the run returns \<open>new-token\<close>, which the run stores.  The upload's
  Authorization header is \<open>Bearer old-token\<close>.
\<close>

theorem upload_uses_token_from_before_refresh:
  "map app_accessToken (yahooAdApplication demo_export_db) = [Some ''old-token'']
   \<and> token_answer (demo_export_env (FetchResponse True TextBody)) = TokenOk ''new-token'' ''refresh-2''
   \<and> map up_authorization (snd (createCsvAndImportToYahoo
         (demo_export_env (FetchResponse True TextBody)) demo_export_db))
       = [''Bearer old-token'']
   \<and> map app_accessToken (yahooAdApplication (fst (createCsvAndImportToYahoo
         (demo_export_env (FetchResponse True TextBody)) demo_export_db)))
       = [Some ''new-token'']"
  by (simp add: export_defs Let_def)


section \<open>The client's retries\<close>

text \<open>The request of attempt \<open>i\<close>: its own payload with the \<open>i\<close>-th UUID as nonce, the
  encryption made at attempt \<open>i\<close>, and the proof of work computed at attempt \<open>i\<close>.\<close>

lemma send_requests:
  assumes "sendConversionData e ev k = Some (ok, reqs)"
  shows "reqs \<noteq> [] \<and> k + length reqs \<le> max MAX_RETRIES (k + 1)
       \<and> (\<forall>j<length reqs.
             sent_payload (reqs ! j) = attempt_payload e ev (k + j)
           \<and> sent_body (reqs ! j) = encrypt e (k + j) (attempt_payload e ev (k + j))
           \<and> makePow (client_btoa e) (client_sha256 e) (pow_fuel e) (pow_now e (k + j))
                (pow_rand e (k + j)) = Some (sent_pow (reqs ! j)))"
  using assms
proof (induction "MAX_RETRIES - k" arbitrary: k ok reqs)
  case 0
  then have k: "\<not> k < MAX_RETRIES - 1" by simp
  from "0.prems" k show ?case
    by (subst (asm) sendConversionData.simps)
       (auto simp: Let_def split: option.splits if_splits)
next
  case (Suc n)
  let ?mk = "makePow (client_btoa e) (client_sha256 e) (pow_fuel e) (pow_now e k) (pow_rand e k)"
  from Suc.prems obtain pow where pow: "?mk = Some pow"
    by (subst (asm) sendConversionData.simps) (auto simp: Let_def split: option.splits)
  let ?req = "\<lparr>sent_pow = pow, sent_body = encrypt e k (attempt_payload e ev k),
               sent_payload = attempt_payload e ev k\<rparr>"
  show ?case
  proof (cases "fetch_answer e k ?req \<noteq> ResponseOk \<and> k < MAX_RETRIES - 1")
    case False
    with Suc.prems pow have "reqs = [?req]"
      by (subst (asm) sendConversionData.simps) (auto simp: Let_def split: if_splits)
    with pow show ?thesis by simp
  next
    case True
    with Suc.prems pow obtain reqs' where rec: "sendConversionData e ev (k + 1) = Some (ok, reqs')"
      and reqs: "reqs = ?req # reqs'"
      by (subst (asm) sendConversionData.simps) (auto simp: Let_def split: option.splits)
    from Suc.hyps(2) have "n = MAX_RETRIES - (k + 1)" by simp
    from Suc.hyps(1)[OF this rec]
    have IH: "reqs' \<noteq> []" "k + 1 + length reqs' \<le> max MAX_RETRIES (k + 1 + 1)"
      "\<forall>j<length reqs'.
             sent_payload (reqs' ! j) = attempt_payload e ev (k + 1 + j)
           \<and> sent_body (reqs' ! j) = encrypt e (k + 1 + j) (attempt_payload e ev (k + 1 + j))
           \<and> makePow (client_btoa e) (client_sha256 e) (pow_fuel e) (pow_now e (k + 1 + j))
                (pow_rand e (k + 1 + j)) = Some (sent_pow (reqs' ! j))"
      by simp_all
    have len: "k + length reqs \<le> max MAX_RETRIES (k + 1)"
      using IH(2) True reqs by (simp add: MAX_RETRIES_def)
    have each: "\<forall>j<length reqs.
             sent_payload (reqs ! j) = attempt_payload e ev (k + j)
           \<and> sent_body (reqs ! j) = encrypt e (k + j) (attempt_payload e ev (k + j))
           \<and> makePow (client_btoa e) (client_sha256 e) (pow_fuel e) (pow_now e (k + j))
                (pow_rand e (k + j)) = Some (sent_pow (reqs ! j))"
    proof (intro allI impI)
      fix j assume j: "j < length reqs"
      show "sent_payload (reqs ! j) = attempt_payload e ev (k + j)
           \<and> sent_body (reqs ! j) = encrypt e (k + j) (attempt_payload e ev (k + j))
           \<and> makePow (client_btoa e) (client_sha256 e) (pow_fuel e) (pow_now e (k + j))
                (pow_rand e (k + j)) = Some (sent_pow (reqs ! j))"
      proof (cases j)
        case 0
        with reqs pow show ?thesis by simp
      next
        case (Suc j')
        with j reqs have "j' < length reqs'" by simp
        with IH(3) Suc reqs show ?thesis by simp
      qed
    qed
    from reqs len each show ?thesis by simp
  qed
qed

lemma dedup_fresh_nonce:
  assumes "n \<notin> set (pixelNonce d)"
  shows "snd (dedup_transaction d n oid) = (oid \<in> orderId ` set (yahooConversion d))"
  using assms by (auto simp: dedup_transaction_def find_None_iff)

text \<open>
  C10.  A run of \<open>sendConversionData\<close> that returns makes at most three attempts.  Attempt
  \<open>i\<close> sends a payload built anew, with the \<open>i\<close>-th UUID as nonce and the same order id, its
  own encryption of that payload and its own proof-of-work token.  When the UUIDs drawn are
  different, so are the nonces.  At the gateway, for a request of the run whose nonce is not
  stored yet, the duplicate transaction reports a duplicate exactly when a conversion with the
  order id is stored.
\<close>

theorem retries_draw_fresh_nonces:
  assumes run: "sendConversionData e ev 0 = Some (ok, reqs)"
    and uuid: "inj_on (randomUUID e) {0..<MAX_RETRIES}"
  shows "length reqs \<le> MAX_RETRIES
       \<and> (\<forall>i<length reqs.
             sent_payload (reqs ! i) = attempt_payload e ev i
           \<and> b_nonce (sent_payload (reqs ! i)) = randomUUID e i
           \<and> b_orderId (sent_payload (reqs ! i)) = order_id ev
           \<and> sent_body (reqs ! i) = encrypt e i (attempt_payload e ev i)
           \<and> makePow (client_btoa e) (client_sha256 e) (pow_fuel e) (pow_now e i)
                (pow_rand e i) = Some (sent_pow (reqs ! i)))
       \<and> distinct (map (\<lambda>r. b_nonce (sent_payload r)) reqs)
       \<and> (\<forall>r \<in> set reqs. \<forall>d. b_nonce (sent_payload r) \<notin> set (pixelNonce d) \<longrightarrow>
             snd (dedup_transaction d (b_nonce (sent_payload r)) (b_orderId (sent_payload r)))
               = (order_id ev \<in> orderId ` set (yahooConversion d)))"
proof -
  from send_requests[OF run]
  have len: "length reqs \<le> MAX_RETRIES"
    and each: "\<forall>j<length reqs.
             sent_payload (reqs ! j) = attempt_payload e ev j
           \<and> sent_body (reqs ! j) = encrypt e j (attempt_payload e ev j)
           \<and> makePow (client_btoa e) (client_sha256 e) (pow_fuel e) (pow_now e j)
                (pow_rand e j) = Some (sent_pow (reqs ! j))"
    by (simp_all add: MAX_RETRIES_def)
  have 2: "\<forall>i<length reqs.
             sent_payload (reqs ! i) = attempt_payload e ev i
           \<and> b_nonce (sent_payload (reqs ! i)) = randomUUID e i
           \<and> b_orderId (sent_payload (reqs ! i)) = order_id ev
           \<and> sent_body (reqs ! i) = encrypt e i (attempt_payload e ev i)
           \<and> makePow (client_btoa e) (client_sha256 e) (pow_fuel e) (pow_now e i)
                (pow_rand e i) = Some (sent_pow (reqs ! i))"
    using each by (simp add: attempt_payload_def)
  have nonces: "map (\<lambda>r. b_nonce (sent_payload r)) reqs = map (randomUUID e) [0..<length reqs]"
  proof (rule nth_equalityI)
    show "length (map (\<lambda>r. b_nonce (sent_payload r)) reqs) = length (map (randomUUID e) [0..<length reqs])"
      by simp
  next
    fix i assume "i < length (map (\<lambda>r. b_nonce (sent_payload r)) reqs)"
    then have "i < length reqs" by simp
    with 2 show "map (\<lambda>r. b_nonce (sent_payload r)) reqs ! i = map (randomUUID e) [0..<length reqs] ! i"
      by (simp add: attempt_payload_def)
  qed
  have "inj_on (randomUUID e) (set [0..<length reqs])"
    using uuid len by (auto intro: inj_on_subset)
  then have 3: "distinct (map (\<lambda>r. b_nonce (sent_payload r)) reqs)"
    unfolding nonces by (simp add: distinct_map)
  have 4: "\<forall>r \<in> set reqs. \<forall>d. b_nonce (sent_payload r) \<notin> set (pixelNonce d) \<longrightarrow>
             snd (dedup_transaction d (b_nonce (sent_payload r)) (b_orderId (sent_payload r)))
               = (order_id ev \<in> orderId ` set (yahooConversion d))"
  proof (intro ballI allI impI)
    fix r and d :: database assume r: "r \<in> set reqs" and f: "b_nonce (sent_payload r) \<notin> set (pixelNonce d)"
    from r obtain i where "i < length reqs" "r = reqs ! i" by (auto simp: in_set_conv_nth)
    with 2 have "b_orderId (sent_payload r) = order_id ev" by blast
    with dedup_fresh_nonce[OF f] show
      "snd (dedup_transaction d (b_nonce (sent_payload r)) (b_orderId (sent_payload r)))
               = (order_id ev \<in> orderId ` set (yahooConversion d))" by simp
  qed
  from len 2 3 4 show ?thesis by blast
qed


lemma demo_uuids: "inj_on (randomUUID demo_beacon_env) {0..<MAX_RETRIES}"
proof -
  have "{0..<MAX_RETRIES} = {0, 1, 2}" by (auto simp: MAX_RETRIES_def)
  then show ?thesis
    by (simp add: demo_beacon_env_def string_of_nat.simps digit_char_def)
qed

lemma demo_seeds:
  "makePow_seed (1690000000123 + 500 * int k) [1, 65535, 3] = ''28166666:1655353:''"
  if "k < 3"
proof -
  have "(1690000000123 + 500 * int k) div 60000 = 28166666" using that by linarith
  then show ?thesis
    by (simp add: makePow_seed_def string_of_int_def string_of_nat.simps digit_char_def)
qed

lemma demo_pows:
  "k < 3 \<Longrightarrow> makePow base64_encode toy_digest 10 (1690000000123 + 500 * int k) [1, 65535, 3]
     = Some (base64_encode ''28166666:1655353:3'')"
  by (simp add: makePow_def demo_seeds makePow_loop_numeral toy_digest_def string_of_nat.simps
      digit_char_def clz32_def bit_length.simps DIFFICULTY_def)

lemma demo_send:
  "sendConversionData demo_beacon_env demo_checkout 0 =
     Some (True,
       [\<lparr>sent_pow = base64_encode ''28166666:1655353:3'', sent_body = ''jwe-0'',
         sent_payload = attempt_payload demo_beacon_env demo_checkout 0\<rparr>,
        \<lparr>sent_pow = base64_encode ''28166666:1655353:3'', sent_body = ''jwe-1'',
         sent_payload = attempt_payload demo_beacon_env demo_checkout 1\<rparr>,
        \<lparr>sent_pow = base64_encode ''28166666:1655353:3'', sent_body = ''jwe-2'',
         sent_payload = attempt_payload demo_beacon_env demo_checkout 2\<rparr>])"
proof -
  have f: "client_btoa demo_beacon_env = base64_encode" "client_sha256 demo_beacon_env = toy_digest"
    "pow_fuel demo_beacon_env = 10" "pow_now demo_beacon_env k = 1690000000123 + 500 * int k"
    "pow_rand demo_beacon_env k = [1, 65535, 3]"
    "encrypt demo_beacon_env k p = ''jwe-'' @ string_of_nat k"
    "fetch_answer demo_beacon_env k r = (if k < 2 then FetchFails else ResponseOk)" for k p r
    by (simp_all add: demo_beacon_env_def)
  have p: "makePow base64_encode toy_digest 10 (1690000000123 + 500 * int k) [1, 65535, 3]
     = Some (base64_encode ''28166666:1655353:3'')" if "k < 3" for k
    using that by (rule demo_pows)
  have 2: "sendConversionData demo_beacon_env demo_checkout 2 =
     Some (True, [\<lparr>sent_pow = base64_encode ''28166666:1655353:3'', sent_body = ''jwe-2'',
         sent_payload = attempt_payload demo_beacon_env demo_checkout 2\<rparr>])"
    by (subst sendConversionData.simps)
       (simp add: f p[of 2, simplified] Let_def string_of_nat.simps digit_char_def)
  have 2: "sendConversionData demo_beacon_env demo_checkout (Suc (Suc 0)) =
     Some (True, [\<lparr>sent_pow = base64_encode ''28166666:1655353:3'', sent_body = ''jwe-2'',
         sent_payload = attempt_payload demo_beacon_env demo_checkout 2\<rparr>])"
    using 2 by (simp add: numeral_2_eq_2)
  have 1: "sendConversionData demo_beacon_env demo_checkout 1 =
     Some (True, [\<lparr>sent_pow = base64_encode ''28166666:1655353:3'', sent_body = ''jwe-1'',
         sent_payload = attempt_payload demo_beacon_env demo_checkout 1\<rparr>,
         \<lparr>sent_pow = base64_encode ''28166666:1655353:3'', sent_body = ''jwe-2'',
         sent_payload = attempt_payload demo_beacon_env demo_checkout 2\<rparr>])"
    by (subst sendConversionData.simps)
       (simp add: f p[of 1, simplified] 2 Let_def MAX_RETRIES_def string_of_nat.simps digit_char_def)
  have 1: "sendConversionData demo_beacon_env demo_checkout (Suc 0) =
     Some (True, [\<lparr>sent_pow = base64_encode ''28166666:1655353:3'', sent_body = ''jwe-1'',
         sent_payload = attempt_payload demo_beacon_env demo_checkout 1\<rparr>,
         \<lparr>sent_pow = base64_encode ''28166666:1655353:3'', sent_body = ''jwe-2'',
         sent_payload = attempt_payload demo_beacon_env demo_checkout 2\<rparr>])"
    using 1 by simp
  show ?thesis
    by (subst sendConversionData.simps)
       (simp add: f p[of 0, simplified] 1 Let_def MAX_RETRIES_def string_of_nat.simps digit_char_def)
qed

theorem retries_draw_fresh_nonces_witness:
  "inj_on (randomUUID demo_beacon_env) {0..<MAX_RETRIES}
   \<and> map_option
         (\<lambda>(ok, reqs). (ok, map (\<lambda>r. b_nonce (sent_payload r)) reqs, map sent_body reqs,
                         distinct (map (\<lambda>r. b_nonce (sent_payload r)) reqs)))
         (sendConversionData demo_beacon_env demo_checkout 0)
       = Some (True, [''uuid-0'', ''uuid-1'', ''uuid-2''], [''jwe-0'', ''jwe-1'', ''jwe-2''], True)"
proof -
  obtain reqs where run: "sendConversionData demo_beacon_env demo_checkout 0 = Some (True, reqs)"
    and reqs: "map (\<lambda>r. b_nonce (sent_payload r)) reqs = [''uuid-0'', ''uuid-1'', ''uuid-2'']"
      "map sent_body reqs = [''jwe-0'', ''jwe-1'', ''jwe-2'']"
    using demo_send
    by (simp add: attempt_payload_def demo_beacon_env_def string_of_nat.simps digit_char_def)
  from retries_draw_fresh_nonces[OF run demo_uuids]
  have "distinct (map (\<lambda>r. b_nonce (sent_payload r)) reqs)" by blast
  with run reqs demo_uuids show ?thesis by simp
qed


end
